theory Spec2Isabelle
  imports Complex_Main
begin

text \<open>
  A model of the class \<open>GEMPRO\<close> of \<open>ssbio/pipeline/gempro.py\<close>: the gene
  annotations, the resolvers \<open>set_representative_sequence\<close> and
  \<open>set_representative_structure\<close>, the structure ingestors
  \<open>map_uniprot_to_pdb\<close> and \<open>blast_seqs_to_pdb\<close>, \<open>manual_homology_models\<close>,
  and the setter of \<open>genes\<close> with \<open>add_genes_by_id\<close>. Dictionaries whose
  order matters are association lists in iteration order; a method that
  mutates a gene returns the new gene; an exception is a value, returned
  together with the state in which it was raised. Functions of other modules
  (downloads, file readers, the sequence quality check, the file cleaner)
  are parameters.
\<close>

section \<open>Python values and helpers used by the pipeline\<close>

text \<open>
  Exceptions of the Python source that this development tracks. Only
  \<open>StopIteration\<close> is ever caught by the pipeline module (in
  \<open>set_representative_structure\<close>); every other exception leaves the
  method that raised it.
\<close>

datatype py_error =
  KeyError | IndexError | AttributeError | TypeError | IOError | UnboundLocalError

text \<open>\<open>sep.join(xs)\<close> for a list of strings.\<close>

fun join :: "string \<Rightarrow> string list \<Rightarrow> string" where
  "join sep [] = []"
| "join sep [x] = x"
| "join sep (x # y # zs) = x @ sep @ join sep (y # zs)"

text \<open>
  Python's \<open>sorted(xs, key=f, reverse=True)\<close>: a stable sort by decreasing
  key (elements with equal keys keep their original order). An element is put
  in front of the first element of the sorted rest whose key is not greater.
\<close>

fun insort_reverse :: "('a \<Rightarrow> 'k::linorder) \<Rightarrow> 'a \<Rightarrow> 'a list \<Rightarrow> 'a list" where
  "insort_reverse f x [] = [x]"
| "insort_reverse f x (y # ys) =
     (if f y \<le> f x then x # y # ys else y # insort_reverse f x ys)"

definition sorted_reverse :: "('a \<Rightarrow> 'k::linorder) \<Rightarrow> 'a list \<Rightarrow> 'a list" where
  "sorted_reverse f xs = foldr (insort_reverse f) xs []"

section \<open>Sequence annotation of a gene\<close>

text \<open>
  The value stored under \<open>'kegg_id'\<close>: \<open>None\<close> by default, a string when it
  comes from KEGG, a list of strings when it comes from a UniProt entry.
\<close>

datatype kegg_id_val = KeggNone | KeggStr string | KeggList "string list"

text \<open>
  The six-key dictionary stored under \<open>'kegg'\<close> and under \<open>'representative'\<close>
  of \<open>annotation['sequence']\<close>. All six keys are always present; a \<open>None\<close>
  value is \<open>None\<close> here.
\<close>

record seq_record =
  uniprot_acc :: "string option"
  kegg_id :: kegg_id_val
  seq_len :: int
  pdbs :: "string list"
  seq_file :: "string option"
  metadata_file :: "string option"

text \<open>
  One entry of \<open>annotation['sequence']['uniprot']\<close>, as far as the resolver
  reads it. The ingestor always stores \<open>'pdbs'\<close>; each other key may be
  absent from the dictionary, which is \<open>None\<close> here (the resolver copies a key
  only \<open>if your_key in uni_prop\<close>, and indexes \<open>['reviewed']\<close> directly). A
  key that is present holds a value of its type.
\<close>

record uniprot_entry =
  u_kegg_id :: "string list option"
  u_uniprot_acc :: "string option"
  u_pdbs :: "string list"
  u_seq_len :: "int option"
  u_seq_file :: "string option"
  u_metadata_file :: "string option"
  u_reviewed :: "bool option"

text \<open>
  \<open>annotation['sequence']\<close>. The \<open>'uniprot'\<close> dictionary is kept as an
  association list in iteration order.
\<close>

record seq_prop =
  kegg :: seq_record
  uniprot :: "(string \<times> uniprot_entry) list"
  representative :: seq_record

definition empty_seq_record :: seq_record where
  "empty_seq_record =
     \<lparr>uniprot_acc = None, kegg_id = KeggNone, seq_len = 0, pdbs = [],
      seq_file = None, metadata_file = None\<rparr>"

definition default_sequence :: seq_prop where
  "default_sequence =
     \<lparr>kegg = empty_seq_record, uniprot = [], representative = empty_seq_record\<rparr>"

text \<open>
  A row of the summary table \<open>df_sequence_mapping\<close> (\<open>genedict\<close> after the
  final conversions, read through the fixed column list, where an absent key
  and \<open>None\<close> are the same missing value).
\<close>

record seq_row =
  row_gene :: string
  row_uniprot_acc :: "string option"
  row_kegg_id :: kegg_id_val
  row_pdbs :: "string option"
  row_seq_len :: "int option"
  row_seq_file :: "string option"
  row_metadata_file :: "string option"

subsection \<open>Ranking of the UniProt entries\<close>

text \<open>
  The loop that fills \<open>u_ranker\<close>: one pair \<open>(u, reviewed + len(pdbs))\<close> per
  key, in iteration order. Indexing \<open>['reviewed']\<close> raises \<open>KeyError\<close> when
  the entry has no such key.
\<close>

definition uniprot_score :: "uniprot_entry \<Rightarrow> py_error + int" where
  "uniprot_score e =
     (case u_reviewed e of
        None \<Rightarrow> Inl KeyError
      | Some r \<Rightarrow> Inr ((if r then 1 else 0) + int (length (u_pdbs e))))"

fun u_ranker :: "(string \<times> uniprot_entry) list \<Rightarrow> py_error + (string \<times> int) list" where
  "u_ranker [] = Inr []"
| "u_ranker ((u, e) # rest) =
     (case uniprot_score e of
        Inl err \<Rightarrow> Inl err
      | Inr sc \<Rightarrow>
          (case u_ranker rest of
             Inl err \<Rightarrow> Inl err
           | Inr ranked \<Rightarrow> Inr ((u, sc) # ranked)))"

text \<open>
  \<open>best_u = sorted(u_ranker, key=lambda tup: tup[1], reverse=True)[0][0]\<close>.
  Indexing \<open>[0]\<close> of an empty list raises \<open>IndexError\<close> (the callers only
  rank a non-empty dictionary).
\<close>

definition best_u :: "(string \<times> uniprot_entry) list \<Rightarrow> py_error + string" where
  "best_u us =
     (case u_ranker us of
        Inl err \<Rightarrow> Inl err
      | Inr ranked \<Rightarrow>
          (case sorted_reverse snd ranked of
             [] \<Rightarrow> Inl IndexError
           | best # _ \<Rightarrow> Inr (fst best)))"

text \<open>
  \<open>seq_prop['representative'].update(for_saving)\<close>, where \<open>for_saving\<close> holds
  those of the six keys that the chosen UniProt entry has.
\<close>

definition update_for_saving :: "uniprot_entry \<Rightarrow> seq_record \<Rightarrow> seq_record" where
  "update_for_saving e r =
     \<lparr>uniprot_acc = (case u_uniprot_acc e of None \<Rightarrow> uniprot_acc r | Some a \<Rightarrow> Some a),
      kegg_id = (case u_kegg_id e of None \<Rightarrow> kegg_id r | Some ks \<Rightarrow> KeggList ks),
      seq_len = (case u_seq_len e of None \<Rightarrow> seq_len r | Some n \<Rightarrow> n),
      pdbs = u_pdbs e,
      seq_file = (case u_seq_file e of None \<Rightarrow> seq_file r | Some f \<Rightarrow> Some f),
      metadata_file =
        (case u_metadata_file e of None \<Rightarrow> metadata_file r | Some f \<Rightarrow> Some f)\<rparr>"

subsection \<open>The resolver for one gene\<close>

text \<open>The final conversion of \<open>genedict['pdbs']\<close>: joined when non-empty, else \<open>None\<close>.\<close>

definition join_pdbs :: "string list \<Rightarrow> string option" where
  "join_pdbs ps = (if ps \<noteq> [] then Some (join '';'' ps) else None)"

text \<open>
  The row written when the representative is already set: the six values of
  the representative, \<open>kegg_id\<close> joined when it is a list.
\<close>

definition row_already_set :: "string \<Rightarrow> seq_record \<Rightarrow> seq_row" where
  "row_already_set g r =
     \<lparr>row_gene = g,
      row_uniprot_acc = uniprot_acc r,
      row_kegg_id = (case kegg_id r of KeggList ks \<Rightarrow> KeggStr (join '';'' ks) | k \<Rightarrow> k),
      row_pdbs = join_pdbs (pdbs r),
      row_seq_len = Some (seq_len r),
      row_seq_file = seq_file r,
      row_metadata_file = metadata_file r\<rparr>"

text \<open>The row after \<open>genedict.update(kegg_prop)\<close>.\<close>

definition row_from_kegg :: "string \<Rightarrow> seq_record \<Rightarrow> seq_row" where
  "row_from_kegg g k =
     \<lparr>row_gene = g,
      row_uniprot_acc = uniprot_acc k,
      row_kegg_id = kegg_id k,
      row_pdbs = join_pdbs (pdbs k),
      row_seq_len = Some (seq_len k),
      row_seq_file = seq_file k,
      row_metadata_file = metadata_file k\<rparr>"

text \<open>The row after \<open>genedict.update(for_saving)\<close>, with the given \<open>kegg_id\<close> cell.\<close>

definition row_from_uniprot :: "string \<Rightarrow> uniprot_entry \<Rightarrow> kegg_id_val \<Rightarrow> seq_row" where
  "row_from_uniprot g e kid =
     \<lparr>row_gene = g,
      row_uniprot_acc = u_uniprot_acc e,
      row_kegg_id = kid,
      row_pdbs = join_pdbs (u_pdbs e),
      row_seq_len = u_seq_len e,
      row_seq_file = u_seq_file e,
      row_metadata_file = u_metadata_file e\<rparr>"

text \<open>The row of a gene that no branch handles: only \<open>gene\<close> is filled.\<close>

definition row_unmapped :: "string \<Rightarrow> seq_row" where
  "row_unmapped g =
     \<lparr>row_gene = g, row_uniprot_acc = None, row_kegg_id = KeggNone, row_pdbs = None,
      row_seq_len = None, row_seq_file = None, row_metadata_file = None\<rparr>"

text \<open>
  The UniProt ranking block, which the source writes out twice. The two copies
  differ in one line: the copy of the UniProt-only branch runs
  \<open>genedict['kegg_id'] = ';'.join(genedict['kegg_id'])\<close> unguarded (a
  \<open>KeyError\<close> when the chosen entry has no \<open>'kegg_id'\<close>, raised after the
  representative was updated), the copy of the KEGG-and-UniProt branch guards
  it with \<open>if 'kegg_id' in genedict\<close>. \<open>guarded\<close> selects the copy.
\<close>

definition uniprot_as_representative ::
  "bool \<Rightarrow> string \<Rightarrow> seq_prop \<Rightarrow> seq_prop \<times> (py_error + seq_row)" where
  "uniprot_as_representative guarded g sp =
     (case best_u (uniprot sp) of
        Inl err \<Rightarrow> (sp, Inl err)
      | Inr u \<Rightarrow>
          (case map_of (uniprot sp) u of
             None \<Rightarrow> (sp, Inl KeyError)
           | Some e \<Rightarrow>
               (let sp' = sp\<lparr>representative := update_for_saving e (representative sp)\<rparr>
                in case u_kegg_id e of
                     None \<Rightarrow>
                       if guarded then (sp', Inr (row_from_uniprot g e KeggNone))
                       else (sp', Inl KeyError)
                   | Some ks \<Rightarrow> (sp', Inr (row_from_uniprot g e (KeggStr (join '';'' ks)))))))"

text \<open>\<open>seq_prop['representative'].update(kegg_prop)\<close>: all six keys are overwritten.\<close>

definition kegg_as_representative ::
  "string \<Rightarrow> seq_prop \<Rightarrow> seq_prop \<times> (py_error + seq_row)" where
  "kegg_as_representative g sp =
     (sp\<lparr>representative := kegg sp\<rparr>, Inr (row_from_kegg g (kegg sp)))"

text \<open>
  The body of the loop of \<open>set_representative_sequence\<close> for one gene: the new
  annotation, and either the row for the table or the exception that left the
  method.
\<close>

definition set_representative_sequence_gene ::
  "string \<Rightarrow> seq_prop \<Rightarrow> seq_prop \<times> (py_error + seq_row)" where
  "set_representative_sequence_gene g sp =
     (if seq_len (representative sp) > 0 then
        (sp, Inr (row_already_set g (representative sp)))
      else if seq_len (kegg sp) > 0 \<and> length (uniprot sp) = 0 then
        kegg_as_representative g sp
      else if seq_len (kegg sp) = 0 \<and> length (uniprot sp) > 0 then
        uniprot_as_representative False g sp
      else if seq_len (kegg sp) > 0 \<and> length (uniprot sp) > 0 then
        (if length (pdbs (kegg sp)) > 0
            \<and> (case uniprot_acc (kegg sp) of
                  None \<Rightarrow> True
                | Some a \<Rightarrow> a \<notin> set (map fst (uniprot sp)))
         then kegg_as_representative g sp
         else uniprot_as_representative True g sp)
      else (sp, Inr (row_unmapped g)))"

section \<open>Structure annotation of a gene\<close>

text \<open>
  The dictionary that \<open>map_uniprot_to_pdb\<close> stores for one ranked (PDB, chain)
  pair (\<open>best_structure_dict\<close>). Numbers that the pipeline only copies or
  compares are rationals (a NaN, which no order places, is outside the model).
\<close>

record ranked_pdb =
  rk_pdb_id :: string
  rk_pdb_chain_id :: string
  rk_uniprot_acc :: string
  rk_experimental_method :: string
  rk_resolution :: rat
  rk_seq_coverage :: rat
  rk_release_date :: string
  rk_taxonomy_id :: int
  rk_pdb_start :: int
  rk_pdb_end :: int
  rk_unp_start :: int
  rk_unp_end :: int
  rk_rank :: nat

text \<open>The dictionary that \<open>blast_seqs_to_pdb\<close> stores for one hit chain (\<open>blast_dict\<close>).\<close>

record blast_pdb_hit =
  bl_pdb_id :: string
  bl_pdb_chain_id :: string
  bl_resolution :: rat
  bl_release_date :: string
  bl_blast_score :: rat
  bl_blast_evalue :: rat
  bl_seq_coverage :: rat
  bl_seq_similar :: rat
  bl_seq_num_coverage :: int
  bl_seq_num_similar :: int

datatype pdb_entry = RankedEntry ranked_pdb | BlastEntry blast_pdb_hit

text \<open>\<open>entry['seq_coverage']\<close>: both kinds of entry have the key.\<close>

fun entry_seq_coverage :: "pdb_entry \<Rightarrow> rat" where
  "entry_seq_coverage (RankedEntry r) = rk_seq_coverage r"
| "entry_seq_coverage (BlastEntry b) = bl_seq_coverage b"

text \<open>
  One homology model: \<open>'model_file'\<close> (\<open>None\<close> when the dictionary has no such
  key, which a manual input may lack) and the numeric keys by name
  (\<open>'seq_coverage'\<close>, \<open>'c_score'\<close>, \<open>'tm_score'\<close>, ...), any of which can
  serve as \<open>sort_homology_by\<close>.
\<close>

record homology_model =
  model_file :: "string option"
  model_fields :: "(string \<times> rat) list"

text \<open>
  \<open>annotation['structure']['representative']['structure_id']\<close>: \<open>None\<close>, a
  \<open>(pdb, chain)\<close> pair or the id of a homology model.
\<close>

datatype structure_id_val = NoStructureId | PdbChain string string | HomologyId string

record struct_representative =
  structure_id :: structure_id_val
  seq_coverage :: rat
  original_pdb_file :: "string option"
  clean_pdb_file :: "string option"

text \<open>
  \<open>annotation['structure']\<close>: \<open>'homology'\<close> is a dictionary and \<open>'pdb'\<close> an
  \<open>OrderedDict\<close>; both are association lists in iteration order.
\<close>

record struct_prop =
  homology :: "(string \<times> homology_model) list"
  pdb :: "((string \<times> string) \<times> pdb_entry) list"
  struct_rep :: struct_representative

definition default_structure :: struct_prop where
  "default_structure =
     \<lparr>homology = [], pdb = [],
      struct_rep = \<lparr>structure_id = NoStructureId, seq_coverage = 0,
                    original_pdb_file = None, clean_pdb_file = None\<rparr>\<rparr>"

section \<open>Genes and the project\<close>

text \<open>
  A gene of the project: its id and the two annotations that the setter of
  \<open>genes\<close> guarantees (\<open>annotation['sequence']\<close> and
  \<open>annotation['structure']\<close>).
\<close>

record gene =
  gene_id :: string
  sequence :: seq_prop
  structure_ann :: struct_prop

text \<open>The attributes of \<open>GEMPRO\<close> that the modelled methods read or write.\<close>

record gempro =
  genes :: "gene list"
  sequence_dir :: string
  structure_single_chain_dir :: string
  df_sequence_mapping :: "seq_row list"
  missing_mapping :: "string list"

subsection \<open>\<open>set_representative_sequence\<close>\<close>

text \<open>
  The loop over the genes. An exception in the body ends the method: the genes
  handled so far keep their new annotation, the others are not visited.
\<close>

fun sequence_loop :: "gene list \<Rightarrow> gene list \<times> (py_error + seq_row list)" where
  "sequence_loop [] = ([], Inr [])"
| "sequence_loop (g # gs) =
     (case set_representative_sequence_gene (gene_id g) (sequence g) of
        (sp', Inl err) \<Rightarrow> (g\<lparr>sequence := sp'\<rparr> # gs, Inl err)
      | (sp', Inr row) \<Rightarrow>
          (case sequence_loop gs of
             (gs', Inl err) \<Rightarrow> (g\<lparr>sequence := sp'\<rparr> # gs', Inl err)
           | (gs', Inr rows) \<Rightarrow> (g\<lparr>sequence := sp'\<rparr> # gs', Inr (row # rows))))"

text \<open>\<open>Series.unique()\<close>: the distinct values in order of first appearance.\<close>

definition unique :: "'a list \<Rightarrow> 'a list" where
  "unique xs = rev (remdups (rev xs))"

text \<open>
  The method: the loop, then the two attributes computed from the rows (rows
  without a sequence file are the unmapped genes). They are written only when
  the loop ends without an exception.
\<close>

definition set_representative_sequence :: "gempro \<Rightarrow> gempro \<times> py_error option" where
  "set_representative_sequence p =
     (case sequence_loop (genes p) of
        (gs', Inl err) \<Rightarrow> (p\<lparr>genes := gs'\<rparr>, Some err)
      | (gs', Inr rows) \<Rightarrow>
          (p\<lparr>genes := gs',
             missing_mapping := unique (map row_gene (filter (\<lambda>r. row_seq_file r = None) rows)),
             df_sequence_mapping := filter (\<lambda>r. row_seq_file r \<noteq> None) rows\<rparr>,
           None))"

text \<open>
  \<open>manual_seq_mapping\<close> for one gene and its sequence \<open>s\<close>: the length and the
  name of the FASTA file written for it (\<open>fasta_name\<close>, the base name of what
  \<open>write_fasta_file\<close> returns) go into the representative directly.
\<close>

definition manual_seq_mapping_gene :: "string \<Rightarrow> string \<Rightarrow> gene \<Rightarrow> gene" where
  "manual_seq_mapping_gene s fasta_name g =
     g\<lparr>sequence := (sequence g)\<lparr>representative :=
          (representative (sequence g))\<lparr>seq_len := int (length s),
                                        seq_file := Some fasta_name\<rparr>\<rparr>\<rparr>"

subsection \<open>The ranking in the words of the specification\<close>



section \<open>\<open>set_representative_structure\<close>\<close>

subsection \<open>Paths and names\<close>

text \<open>\<open>os.path.join(a, b)\<close> for two POSIX components.\<close>

definition op_join :: "string \<Rightarrow> string \<Rightarrow> string" where
  "op_join a b =
     (if b \<noteq> [] \<and> hd b = CHR ''/'' then b
      else if a = [] \<or> last a = CHR ''/'' then a @ b
      else a @ ''/'' @ b)"

text \<open>\<open>os.path.basename(p)\<close>: what follows the last slash.\<close>

definition basename :: "string \<Rightarrow> string" where
  "basename p = rev (takeWhile (\<lambda>c. c \<noteq> CHR ''/'') (rev p))"

text \<open>\<open>s.split('.')[0]\<close>: what precedes the first dot.\<close>

definition split_dot_first :: "string \<Rightarrow> string" where
  "split_dot_first s = takeWhile (\<lambda>c. c \<noteq> CHR ''.'') s"

subsection \<open>Collaborators, options and effects\<close>

text \<open>The tolerances handed to the quality check.\<close>

record qc_params =
  allow_missing_on_termini :: rat
  allow_mutants :: bool
  allow_deletions :: bool
  allow_insertions :: bool
  allow_unresolved :: bool

text \<open>The keyword arguments of \<open>set_representative_structure\<close>.\<close>

record structure_options =
  always_use_homology :: bool
  sort_homology_by :: string
  qc :: qc_params
  force_rerun :: bool

text \<open>
  The functions of other modules that the method calls; their code is not part
  of the pipeline module, so they are parameters. A call that reads a file or
  the network may raise (\<open>Inl\<close>); the method has no handler for it.
  \<^item> \<open>read_fasta path\<close>: \<open>str(SeqIO.read(open(path), "fasta").seq)\<close>;
  \<^item> \<open>download_structure pdb_id outdir force_rerun\<close>: the path of the PDB file;
  \<^item> \<open>get_pdb_seqs pdb_file\<close>: the dictionary from chain id to sequence;
  \<^item> \<open>sequence_checker reference_id reference_sequence structure_id
     structure_sequence tolerances outdir force_rerun\<close>: the quality check;
  \<^item> \<open>write_pdb pdb_file keep_chains out_suffix out_dir\<close>: the path of the
     cleaned file written by \<open>PDBIOExt(pdb_file).write_pdb\<close> with the selection
     \<open>CleanPDB(keep_chains=...)\<close>.
\<close>

record collaborators =
  read_fasta :: "string \<Rightarrow> py_error + string"
  download_structure :: "string \<Rightarrow> string \<Rightarrow> bool \<Rightarrow> py_error + string"
  get_pdb_seqs :: "string \<Rightarrow> py_error + (string \<times> string) list"
  sequence_checker ::
    "string \<Rightarrow> string \<Rightarrow> string \<Rightarrow> string \<Rightarrow> qc_params \<Rightarrow> string \<Rightarrow> bool \<Rightarrow> bool"
  write_pdb :: "string \<Rightarrow> string option \<Rightarrow> string \<Rightarrow> string \<Rightarrow> string"

text \<open>The calls with an effect outside the gene, in the order they are made.\<close>

datatype effect =
  Downloaded string
  | Checked string string
  | Cleaned string "string option"

text \<open>The quality checks among the effects, as (pdb, chain) pairs.\<close>

fun checked_pairs :: "effect list \<Rightarrow> (string \<times> string) list" where
  "checked_pairs [] = []"
| "checked_pairs (Checked p c # es) = (p, c) # checked_pairs es"
| "checked_pairs (e # es) = checked_pairs es"

subsection \<open>Source selection\<close>

text \<open>
  The flags \<open>(use_homology, use_pdb)\<close> as the nested conditionals set them,
  for a gene that has at least one structure (a gene with none is skipped
  before this point).
\<close>

definition select_source :: "bool \<Rightarrow> bool \<Rightarrow> bool \<Rightarrow> bool \<times> bool" where
  "select_source always_homology has_homology has_pdb =
     (if always_homology then
        (if has_homology then (True, False)
         else if has_pdb then (False, True)
         else (False, False))
      else
        (if has_homology \<and> has_pdb then (False, True)
         else if has_homology \<and> \<not> has_pdb then (True, False)
         else if has_pdb \<and> \<not> has_homology then (False, True)
         else (False, False)))"

subsection \<open>The search through the PDB candidates\<close>

text \<open>
  \<open>convert_to_dict[x[0]].append(x[1])\<close> on a \<open>DefaultOrderedDict(list)\<close>: the
  chain goes to the end of the list of its structure; a structure not seen
  before goes to the end of the dictionary.
\<close>

fun append_chain :: "string \<Rightarrow> string \<Rightarrow> (string \<times> string list) list \<Rightarrow> (string \<times> string list) list" where
  "append_chain p c [] = [(p, [c])]"
| "append_chain p c ((q, cs) # rest) =
     (if p = q then (q, cs @ [c]) # rest else (q, cs) # append_chain p c rest)"

definition convert_to_dict :: "(string \<times> string) list \<Rightarrow> (string \<times> string list) list" where
  "convert_to_dict all_pdbs_and_chains =
     foldl (\<lambda>d x. append_chain (fst x) (snd x) d) [] all_pdbs_and_chains"

text \<open>The (pdb, chain) pairs in the order in which the two nested loops visit them.\<close>

definition visit_order :: "(string \<times> string list) list \<Rightarrow> (string \<times> string) list" where
  "visit_order d = concat (map (\<lambda>(p, cs). map (Pair p) cs) d)"

datatype chain_search = ChainFound string | ChainsExhausted | ChainRaised py_error

text \<open>
  The inner loop over the chains of one structure. \<open>chain_to_seq[chain]\<close>
  raises \<open>KeyError\<close> for a chain that the structure file does not have. The
  first chain that passes the check ends the loop.
\<close>

fun check_chains ::
  "collaborators \<Rightarrow> structure_options \<Rightarrow> string \<Rightarrow> string \<Rightarrow> string \<Rightarrow> string \<Rightarrow>
   (string \<times> string) list \<Rightarrow> string list \<Rightarrow> chain_search \<times> effect list" where
  "check_chains env opts ref_seq_id ref_seq dir pdb_id chain_to_seq [] = (ChainsExhausted, [])"
| "check_chains env opts ref_seq_id ref_seq dir pdb_id chain_to_seq (ch # chs) =
     (case map_of chain_to_seq ch of
        None \<Rightarrow> (ChainRaised KeyError, [])
      | Some chain_seq \<Rightarrow>
          if sequence_checker env ref_seq_id ref_seq (pdb_id @ ''_'' @ ch) chain_seq
               (qc opts) dir (force_rerun opts)
          then (ChainFound ch, [Checked pdb_id ch])
          else (case check_chains env opts ref_seq_id ref_seq dir pdb_id chain_to_seq chs of
                  (r, effs) \<Rightarrow> (r, Checked pdb_id ch # effs)))"

datatype pdb_search = Found string string string | Exhausted | Raised py_error

text \<open>
  The outer loop over the structures: download, read the chain sequences,
  check the chains. \<open>Found pdb chain pdb_file\<close> is the point where the source
  raises \<open>StopIteration\<close>.
\<close>

fun search_pdbs ::
  "collaborators \<Rightarrow> structure_options \<Rightarrow> string \<Rightarrow> string \<Rightarrow> string \<Rightarrow>
   (string \<times> string list) list \<Rightarrow> pdb_search \<times> effect list" where
  "search_pdbs env opts ref_seq_id ref_seq dir [] = (Exhausted, [])"
| "search_pdbs env opts ref_seq_id ref_seq dir ((pdb_id, chs) # rest) =
     (case download_structure env pdb_id dir (force_rerun opts) of
        Inl err \<Rightarrow> (Raised err, [])
      | Inr pdb_file \<Rightarrow>
          (case get_pdb_seqs env pdb_file of
             Inl err \<Rightarrow> (Raised err, [Downloaded pdb_id])
           | Inr chain_to_seq \<Rightarrow>
               (case check_chains env opts ref_seq_id ref_seq dir pdb_id chain_to_seq chs of
                  (ChainFound ch, effs) \<Rightarrow>
                    (Found pdb_id ch pdb_file, Downloaded pdb_id # effs)
                | (ChainRaised err, effs) \<Rightarrow> (Raised err, Downloaded pdb_id # effs)
                | (ChainsExhausted, effs) \<Rightarrow>
                    (case search_pdbs env opts ref_seq_id ref_seq dir rest of
                       (r, effs') \<Rightarrow> (r, Downloaded pdb_id # effs @ effs')))))"

subsection \<open>The two ways to set the representative\<close>

text \<open>
  What the method leaves behind for one gene: the gene, whether the local
  variable \<open>chain\<close> of the method is bound afterwards, the effects, and the
  exception that left the method, if any.
\<close>

record gene_outcome =
  new_gene :: gene
  chain_bound :: bool
  effects :: "effect list"
  raised :: "py_error option"

definition set_struct_rep :: "struct_representative \<Rightarrow> gene \<Rightarrow> gene" where
  "set_struct_rep r g = g\<lparr>structure_ann := (structure_ann g)\<lparr>struct_rep := r\<rparr>\<rparr>"

text \<open>
  The statements under \<open>if found_good_pdb\<close>: the representative takes the
  pair, the coverage of its entry, the base name of the downloaded file and
  the base name of the cleaned single-chain file.
\<close>

definition set_pdb_representative ::
  "collaborators \<Rightarrow> string \<Rightarrow> string \<Rightarrow> string \<Rightarrow> string \<Rightarrow> effect list \<Rightarrow> gene \<Rightarrow> gene_outcome" where
  "set_pdb_representative env dir pdb_id ch pdb_file effs g =
     (case map_of (pdb (structure_ann g)) (pdb_id, ch) of
        None \<Rightarrow> \<lparr>new_gene = g, chain_bound = True, effects = effs, raised = Some KeyError\<rparr>
      | Some orig_pdb_data \<Rightarrow>
          \<lparr>new_gene = set_struct_rep
             \<lparr>structure_id = PdbChain pdb_id ch,
              seq_coverage = entry_seq_coverage orig_pdb_data,
              original_pdb_file = Some (basename pdb_file),
              clean_pdb_file =
                Some (basename (write_pdb env pdb_file (Some ch) (ch @ ''_clean'') dir))\<rparr> g,
           chain_bound = True,
           effects = effs @ [Cleaned pdb_file (Some ch)],
           raised = None\<rparr>)"

text \<open>
  The pairs \<open>(x, hm[x][sort_homology_by])\<close> that the sort compares; the lookup
  raises \<open>KeyError\<close> for a model without that key.
\<close>

fun homology_keys :: "string \<Rightarrow> (string \<times> homology_model) list \<Rightarrow> py_error + (string \<times> rat) list" where
  "homology_keys k [] = Inr []"
| "homology_keys k ((x, m) # rest) =
     (case map_of (model_fields m) k of
        None \<Rightarrow> Inl KeyError
      | Some v \<Rightarrow>
          (case homology_keys k rest of
             Inl err \<Rightarrow> Inl err
           | Inr keyed \<Rightarrow> Inr ((x, v) # keyed)))"

text \<open>
  The homology branch. The top model of the descending sort is taken without
  any check. Three keys of the representative are written first; then the
  argument \<open>'clean'.format(chain)\<close> reads the local variable \<open>chain\<close>, which is
  bound only if some gene before (or this one) went through the chain loop,
  and raises \<open>UnboundLocalError\<close> otherwise.
\<close>

definition homology_path ::
  "collaborators \<Rightarrow> structure_options \<Rightarrow> string \<Rightarrow> bool \<Rightarrow> effect list \<Rightarrow> gene \<Rightarrow> gene_outcome" where
  "homology_path env opts dir bound effs g =
     (let hm = homology (structure_ann g);
          fail = (\<lambda>err. \<lparr>new_gene = g, chain_bound = bound, effects = effs, raised = Some err\<rparr>)
      in case homology_keys (sort_homology_by opts) hm of
           Inl err \<Rightarrow> fail err
         | Inr keyed \<Rightarrow>
             (case sorted_reverse snd keyed of
                [] \<Rightarrow> fail IndexError
              | best # _ \<Rightarrow>
                  (let top_homology = fst best in
                   case map_of hm top_homology of
                     None \<Rightarrow> fail KeyError
                   | Some m \<Rightarrow>
                       (case model_file m of
                          None \<Rightarrow> fail KeyError
                        | Some original \<Rightarrow>
                            (case map_of (model_fields m) ''seq_coverage'' of
                               None \<Rightarrow> fail KeyError
                             | Some cov \<Rightarrow>
                                 (let r = (struct_rep (structure_ann g))
                                        \<lparr>structure_id := HomologyId top_homology,
                                         seq_coverage := cov,
                                         original_pdb_file := Some original\<rparr>
                                  in if \<not> bound then
                                       \<lparr>new_gene = set_struct_rep r g, chain_bound = bound,
                                        effects = effs, raised = Some UnboundLocalError\<rparr>
                                     else
                                       \<lparr>new_gene = set_struct_rep
                                          (r\<lparr>clean_pdb_file :=
                                              Some (basename (write_pdb env original None ''clean'' dir))\<rparr>) g,
                                        chain_bound = bound,
                                        effects = effs @ [Cleaned original None],
                                        raised = None\<rparr>))))))"

text \<open>
  The PDB branch (\<open>if use_pdb\<close>). The representative sequence is read first:
  \<open>seq_file.split('.')\<close> on \<open>None\<close> raises \<open>AttributeError\<close>, and reading the
  file may raise. The \<open>try\<close> has a handler for \<open>StopIteration\<close> only, so every
  other exception leaves the method. When the loops end without a good
  candidate, the \<open>else\<close> of the \<open>try\<close> turns \<open>use_homology\<close> on if the gene has
  homology models, and the homology branch runs. After the loops \<open>chain\<close> is
  bound if it was before or if there was a candidate to visit.
\<close>

definition pdb_path ::
  "collaborators \<Rightarrow> structure_options \<Rightarrow> string \<Rightarrow> string \<Rightarrow> bool \<Rightarrow> gene \<Rightarrow> gene_outcome" where
  "pdb_path env opts gene_seq_dir gene_struct_dir bound g =
     (let fail = (\<lambda>err effs. \<lparr>new_gene = g, chain_bound = bound, effects = effs, raised = Some err\<rparr>)
      in case seq_file (representative (sequence g)) of
           None \<Rightarrow> fail AttributeError []
         | Some file \<Rightarrow>
             (case read_fasta env (op_join gene_seq_dir file) of
                Inl err \<Rightarrow> fail err []
              | Inr ref_seq \<Rightarrow>
                  (case search_pdbs env opts (split_dot_first file) ref_seq gene_struct_dir
                          (convert_to_dict (map fst (pdb (structure_ann g)))) of
                     (Raised err, effs) \<Rightarrow> fail err effs
                   | (Found pdb_id ch pdb_file, effs) \<Rightarrow>
                       set_pdb_representative env gene_struct_dir pdb_id ch pdb_file effs g
                   | (Exhausted, effs) \<Rightarrow>
                       (let bound' = (bound \<or> pdb (structure_ann g) \<noteq> [])
                        in if homology (structure_ann g) \<noteq> [] then
                             homology_path env opts gene_struct_dir bound' effs g
                           else
                             \<lparr>new_gene = g, chain_bound = bound', effects = effs,
                              raised = None\<rparr>))))"

subsection \<open>The method\<close>

text \<open>The body of the loop of \<open>set_representative_structure\<close> for one gene.\<close>

definition set_representative_structure_gene ::
  "collaborators \<Rightarrow> structure_options \<Rightarrow> string \<Rightarrow> string \<Rightarrow> bool \<Rightarrow> gene \<Rightarrow> gene_outcome" where
  "set_representative_structure_gene env opts seq_dir struct_dir bound g =
     (let has_homology = length (homology (structure_ann g)) > 0;
          has_pdb = length (pdb (structure_ann g)) > 0;
          gene_seq_dir = op_join seq_dir (gene_id g);
          gene_struct_dir = op_join struct_dir (gene_id g)
      in if \<not> has_pdb \<and> \<not> has_homology then
           \<lparr>new_gene = g, chain_bound = bound, effects = [], raised = None\<rparr>
         else
           (case select_source (always_use_homology opts) has_homology has_pdb of
              (use_homology, use_pdb) \<Rightarrow>
                if use_pdb then pdb_path env opts gene_seq_dir gene_struct_dir bound g
                else if use_homology then homology_path env opts gene_struct_dir bound [] g
                else \<lparr>new_gene = g, chain_bound = bound, effects = [], raised = None\<rparr>))"

text \<open>
  The loop over the genes: the binding of \<open>chain\<close> is carried from gene to
  gene, and an exception ends the method.
\<close>

fun structure_loop ::
  "collaborators \<Rightarrow> structure_options \<Rightarrow> string \<Rightarrow> string \<Rightarrow> bool \<Rightarrow> gene list \<Rightarrow>
   gene list \<times> effect list \<times> py_error option" where
  "structure_loop env opts seq_dir struct_dir bound [] = ([], [], None)"
| "structure_loop env opts seq_dir struct_dir bound (g # gs) =
     (let out = set_representative_structure_gene env opts seq_dir struct_dir bound g
      in case raised out of
           Some err \<Rightarrow> (new_gene out # gs, effects out, Some err)
         | None \<Rightarrow>
             (case structure_loop env opts seq_dir struct_dir (chain_bound out) gs of
                (gs', effs, res) \<Rightarrow> (new_gene out # gs', effects out @ effs, res)))"

definition set_representative_structure ::
  "collaborators \<Rightarrow> structure_options \<Rightarrow> gempro \<Rightarrow> gempro \<times> effect list \<times> py_error option" where
  "set_representative_structure env opts p =
     (case structure_loop env opts (sequence_dir p) (structure_single_chain_dir p) False (genes p) of
        (gs', effs, res) \<Rightarrow> (p\<lparr>genes := gs'\<rparr>, effs, res))"

subsection \<open>The candidate search in the words of the specification\<close>

text \<open>
  The order of evaluation as the specification gives it: the candidates
  grouped by structure id, the structures in the order of their first
  appearance among the keys, the chains of a structure in the order of the
  keys.
\<close>

definition grouped_order :: "(string \<times> string) list \<Rightarrow> (string \<times> string) list" where
  "grouped_order keys =
     concat (map (\<lambda>p. filter (\<lambda>k. fst k = p) keys) (unique (map fst keys)))"

text \<open>
  What happens at one candidate when the loops reach it: the check passes (on
  the file downloaded for it), the check fails, or an exception is raised
  (by the download, by the reading of the chain sequences, or by the lookup
  of a chain that the file does not have).
\<close>

datatype candidate_outcome = Passes string | Fails | Breaks py_error

definition candidate_status ::
  "collaborators \<Rightarrow> structure_options \<Rightarrow> string \<Rightarrow> string \<Rightarrow> string \<Rightarrow>
   string \<times> string \<Rightarrow> candidate_outcome" where
  "candidate_status env opts ref_seq_id ref_seq dir x =
     (case download_structure env (fst x) dir (force_rerun opts) of
        Inl err \<Rightarrow> Breaks err
      | Inr pdb_file \<Rightarrow>
          (case get_pdb_seqs env pdb_file of
             Inl err \<Rightarrow> Breaks err
           | Inr chain_to_seq \<Rightarrow>
               (case map_of chain_to_seq (snd x) of
                  None \<Rightarrow> Breaks KeyError
                | Some chain_seq \<Rightarrow>
                    if sequence_checker env ref_seq_id ref_seq (fst x @ ''_'' @ snd x) chain_seq
                         (qc opts) dir (force_rerun opts)
                    then Passes pdb_file else Fails)))"

text \<open>
  The search as the specification describes it, over the candidates in
  evaluation order: the candidates that fail are passed over, and the first
  one that does not fail decides. \<open>search_result\<close> is the result,
  \<open>search_checked\<close> the candidates that were put to the quality check.
\<close>

definition search_result ::
  "(string \<times> string \<Rightarrow> candidate_outcome) \<Rightarrow> (string \<times> string) list \<Rightarrow> pdb_search" where
  "search_result st xs =
     (case dropWhile (\<lambda>x. st x = Fails) xs of
        [] \<Rightarrow> Exhausted
      | x # _ \<Rightarrow>
          (case st x of
             Passes pdb_file \<Rightarrow> Found (fst x) (snd x) pdb_file
           | Breaks err \<Rightarrow> Raised err
           | Fails \<Rightarrow> Exhausted))"

definition search_checked ::
  "(string \<times> string \<Rightarrow> candidate_outcome) \<Rightarrow> (string \<times> string) list \<Rightarrow> (string \<times> string) list" where
  "search_checked st xs =
     takeWhile (\<lambda>x. st x = Fails) xs
     @ (case dropWhile (\<lambda>x. st x = Fails) xs of
          [] \<Rightarrow> []
        | x # _ \<Rightarrow> (case st x of Passes pdb_file \<Rightarrow> [x] | _ \<Rightarrow> []))"

text \<open>The result of the chain loop as a result of the whole search.\<close>

fun lift_chain :: "string \<Rightarrow> string \<Rightarrow> chain_search \<Rightarrow> pdb_search" where
  "lift_chain p f (ChainFound c) = Found p c f"
| "lift_chain p f ChainsExhausted = Exhausted"
| "lift_chain p f (ChainRaised e) = Raised e"


text \<open>
  Position \<open>i\<close> holds the model that a descending sort on key \<open>k\<close> ranks top:
  every model has the key, none has a greater value, and every model before
  position \<open>i\<close> has a smaller one.
\<close>

definition top_model :: "string \<Rightarrow> (string \<times> homology_model) list \<Rightarrow> nat \<Rightarrow> bool" where
  "top_model k hm i \<longleftrightarrow>
     i < length hm
     \<and> (case map_of (model_fields (snd (hm ! i))) k of
          None \<Rightarrow> False
        | Some v \<Rightarrow>
            (\<forall>m\<in>set hm. case map_of (model_fields (snd m)) k of
                            None \<Rightarrow> False | Some w \<Rightarrow> w \<le> v)
            \<and> (\<forall>m\<in>set (take i hm). case map_of (model_fields (snd m)) k of
                            None \<Rightarrow> False | Some w \<Rightarrow> w < v))"


section \<open>Structure ingestion\<close>

subsection \<open>Ordered dictionaries and strings\<close>

text \<open>
  \<open>d[k] = v\<close> on an \<open>OrderedDict\<close>: a key that is present keeps its position
  and takes the new value, a new key goes to the end.
\<close>

fun odict_set :: "'k \<Rightarrow> 'v \<Rightarrow> ('k \<times> 'v) list \<Rightarrow> ('k \<times> 'v) list" where
  "odict_set k v [] = [(k, v)]"
| "odict_set k v ((k', v') # rest) =
     (if k = k' then (k', v) # rest else (k', v') # odict_set k v rest)"

text \<open>\<open>d.update(other)\<close>: the assignments \<open>d[k] = v\<close> in the order of \<open>other\<close>.\<close>

definition odict_update :: "('k \<times> 'v) list \<Rightarrow> ('k \<times> 'v) list \<Rightarrow> ('k \<times> 'v) list" where
  "odict_update d other = foldl (\<lambda>acc kv. odict_set (fst kv) (snd kv) acc) d other"

text \<open>\<open>str.lower()\<close> and \<open>str.upper()\<close> on ASCII text (PDB and chain ids).\<close>

definition lower_char :: "char \<Rightarrow> char" where
  "lower_char c =
     (case map_of (zip ''ABCDEFGHIJKLMNOPQRSTUVWXYZ'' ''abcdefghijklmnopqrstuvwxyz'') c of
        Some l \<Rightarrow> l
      | None \<Rightarrow> c)"

definition upper_char :: "char \<Rightarrow> char" where
  "upper_char c =
     (case map_of (zip ''abcdefghijklmnopqrstuvwxyz'' ''ABCDEFGHIJKLMNOPQRSTUVWXYZ'') c of
        Some u \<Rightarrow> u
      | None \<Rightarrow> c)"

definition lower :: "string \<Rightarrow> string" where
  "lower s = map lower_char s"

definition upper :: "string \<Rightarrow> string" where
  "upper s = map upper_char s"

subsection \<open>Collaborators\<close>

text \<open>One element of the list that \<open>best_structures\<close> returns.\<close>

record best_structure =
  bs_pdb_id :: string
  bs_chain_id :: string
  bs_experimental_method :: string
  bs_resolution :: rat
  bs_coverage :: rat
  bs_tax_id :: int
  bs_start :: int
  bs_end :: int
  bs_unp_start :: int
  bs_unp_end :: int

text \<open>One element of the list that \<open>blast_pdb\<close> returns.\<close>

record blast_result =
  hit_pdb :: string
  hit_pdb_chains :: "string list"
  hit_score :: rat
  hit_evalue :: rat
  hit_percent_ident :: rat
  hit_percent_similar :: rat
  hit_num_ident :: int
  hit_num_similar :: int

text \<open>
  The functions of \<open>ssbio.databases.pdb\<close> and the FASTA reader that the two
  ingestors call; their code is not part of the pipeline module. Cutoffs,
  e-value and \<open>force_rerun\<close> are fixed for a call of the method and are part of
  the function here. An empty list stands for every falsy result.
  \<^item> \<open>best_structures uniprot_id outdir\<close>;
  \<^item> \<open>blast_pdb seq_str outdir\<close>;
  \<^item> \<open>get_release_date pdb_id\<close>, \<open>get_resolution pdb_id\<close>;
  \<^item> \<open>fasta path\<close>: \<open>str(SeqIO.read(open(path), "fasta").seq)\<close>, which may raise.
\<close>

record pdb_services =
  best_structures :: "string \<Rightarrow> string \<Rightarrow> best_structure list"
  blast_pdb :: "string \<Rightarrow> string \<Rightarrow> blast_result list"
  get_release_date :: "string \<Rightarrow> string"
  get_resolution :: "string \<Rightarrow> rat"
  fasta :: "string \<Rightarrow> py_error + string"

subsection \<open>\<open>map_uniprot_to_pdb\<close>\<close>

text \<open>
  The loop that fills \<open>to_add_to_annotation\<close> from the ranked list: ranks count
  from 1, the key is the lower-case PDB id with the upper-case chain id, and a
  key that comes twice keeps the place of its first entry and the values of
  its last.
\<close>

fun rank_structures ::
  "pdb_services \<Rightarrow> string \<Rightarrow> nat \<Rightarrow> best_structure list \<Rightarrow>
   ((string \<times> string) \<times> pdb_entry) list \<Rightarrow> ((string \<times> string) \<times> pdb_entry) list" where
  "rank_structures srv uniprot_id rank [] to_add = to_add"
| "rank_structures srv uniprot_id rank (b # bs) to_add =
     (let currpdb = lower (bs_pdb_id b);
          currchain = upper (bs_chain_id b);
          best_structure_dict =
            \<lparr>rk_pdb_id = currpdb, rk_pdb_chain_id = currchain, rk_uniprot_acc = uniprot_id,
             rk_experimental_method = bs_experimental_method b,
             rk_resolution = bs_resolution b, rk_seq_coverage = bs_coverage b,
             rk_release_date = get_release_date srv currpdb, rk_taxonomy_id = bs_tax_id b,
             rk_pdb_start = bs_start b, rk_pdb_end = bs_end b,
             rk_unp_start = bs_unp_start b, rk_unp_end = bs_unp_end b, rk_rank = rank\<rparr>
      in rank_structures srv uniprot_id (rank + 1) bs
           (odict_set (currpdb, currchain) (RankedEntry best_structure_dict) to_add))"

text \<open>
  The merge with an annotation that exists already: the existing entries whose
  key is not among the new ones are put after the new ones, and the result
  replaces the annotation. An existing entry whose key is among the new ones
  is removed ("remove existing (pdb,chain) keys and use the best_structure
  annotation instead").
\<close>

definition merge_ranked ::
  "((string \<times> string) \<times> pdb_entry) list \<Rightarrow> ((string \<times> string) \<times> pdb_entry) list \<Rightarrow>
   ((string \<times> string) \<times> pdb_entry) list" where
  "merge_ranked to_add current =
     (if current \<noteq> [] then
        odict_update to_add (filter (\<lambda>kv. fst kv \<notin> set (map fst to_add)) current)
      else to_add)"

text \<open>
  The body of the loop for one gene. A gene without representative UniProt
  accession (\<open>None\<close> or empty) is skipped, and so is a gene for which the
  service has no structure.
\<close>

definition map_uniprot_to_pdb_gene :: "pdb_services \<Rightarrow> string \<Rightarrow> gene \<Rightarrow> gene" where
  "map_uniprot_to_pdb_gene srv seq_dir g =
     (case uniprot_acc (representative (sequence g)) of
        None \<Rightarrow> g
      | Some uniprot_id \<Rightarrow>
          if uniprot_id = [] then g
          else
            (let found = best_structures srv uniprot_id (op_join seq_dir (gene_id g))
             in if found = [] then g
                else g\<lparr>structure_ann := (structure_ann g)\<lparr>pdb :=
                       merge_ranked (rank_structures srv uniprot_id 1 found [])
                         (pdb (structure_ann g))\<rparr>\<rparr>))"

subsection \<open>\<open>blast_seqs_to_pdb\<close>\<close>

text \<open>The inner loop over the chains of one hit.\<close>

definition blast_chains ::
  "pdb_services \<Rightarrow> blast_result \<Rightarrow> ((string \<times> string) \<times> pdb_entry) list \<Rightarrow>
   ((string \<times> string) \<times> pdb_entry) list" where
  "blast_chains srv r to_add =
     (let pdb_id = lower (hit_pdb r);
          pdb_rez = get_resolution srv pdb_id;
          pdb_rel = get_release_date srv pdb_id
      in foldl (\<lambda>acc c.
           odict_set (pdb_id, upper c)
             (BlastEntry
               \<lparr>bl_pdb_id = pdb_id, bl_pdb_chain_id = upper c, bl_resolution = pdb_rez,
                bl_release_date = pdb_rel, bl_blast_score = hit_score r,
                bl_blast_evalue = hit_evalue r, bl_seq_coverage = hit_percent_ident r,
                bl_seq_similar = hit_percent_similar r, bl_seq_num_coverage = hit_num_ident r,
                bl_seq_num_similar = hit_num_similar r\<rparr>) acc)
         to_add (hit_pdb_chains r))"

text \<open>
  The merge: hits whose key is in the annotation already are left out, the
  others are added at the end ("remove existing (pdb,chain) keys from BLAST
  results and append rest to the end").
\<close>

definition merge_blast ::
  "((string \<times> string) \<times> pdb_entry) list \<Rightarrow> ((string \<times> string) \<times> pdb_entry) list \<Rightarrow>
   ((string \<times> string) \<times> pdb_entry) list" where
  "merge_blast to_add current =
     odict_update current
       (if current \<noteq> [] then filter (\<lambda>kv. fst kv \<notin> set (map fst current)) to_add
        else to_add)"

text \<open>
  The body of the loop for one gene: skipped without a representative sequence
  file, and (unless \<open>all_genes\<close>) when it has structures already; reading the
  sequence may raise, which ends the method.
\<close>

definition blast_seqs_to_pdb_gene ::
  "pdb_services \<Rightarrow> string \<Rightarrow> bool \<Rightarrow> gene \<Rightarrow> py_error + gene" where
  "blast_seqs_to_pdb_gene srv seq_dir all_genes g =
     (case seq_file (representative (sequence g)) of
        None \<Rightarrow> Inr g
      | Some file \<Rightarrow>
          if file = [] then Inr g
          else if pdb (structure_ann g) \<noteq> [] \<and> \<not> all_genes then Inr g
          else
            (case fasta srv (op_join (op_join seq_dir (gene_id g)) file) of
               Inl err \<Rightarrow> Inl err
             | Inr seq_str \<Rightarrow>
                 (let blast_results = blast_pdb srv seq_str (op_join seq_dir (gene_id g))
                  in if blast_results = [] then Inr g
                     else Inr (g\<lparr>structure_ann := (structure_ann g)\<lparr>pdb :=
                            merge_blast (foldl (\<lambda>acc r. blast_chains srv r acc) [] blast_results)
                              (pdb (structure_ann g))\<rparr>\<rparr>))))"

section \<open>\<open>manual_homology_models\<close>\<close>

text \<open>
  The part of the file system that the method touches: the directories that
  exist and the files that exist.
\<close>

record file_system =
  directories :: "string list"
  files :: "string list"

text \<open>
  The body of the inner loop for the entries \<open>(hid, hdict)\<close> of one gene, in
  the order of the dictionary. The check for \<open>'model_file'\<close> is the first
  statement and raises \<open>KeyError\<close>; then the gene's directory is made if it
  does not exist, the model file is copied into it (\<open>shutil.copy2\<close> raises for
  a source that does not exist), and the entry is stored under its id. The
  state comes back with the exception: what was done before it stays done.
\<close>

fun manual_models_of_gene ::
  "string \<Rightarrow> (string \<times> homology_model) list \<Rightarrow> gene \<times> file_system \<Rightarrow>
   (gene \<times> file_system) \<times> py_error option" where
  "manual_models_of_gene struct_dir [] st = (st, None)"
| "manual_models_of_gene struct_dir ((hid, hdict) # rest) (g, fs) =
     (case model_file hdict of
        None \<Rightarrow> ((g, fs), Some KeyError)
      | Some source \<Rightarrow>
          (let dest_gene_dir = op_join struct_dir (gene_id g);
               fs1 = (if dest_gene_dir \<in> set (directories fs) then fs
                      else fs\<lparr>directories := directories fs @ [dest_gene_dir]\<rparr>)
           in if source \<notin> set (files fs1) then ((g, fs1), Some IOError)
              else manual_models_of_gene struct_dir rest
                     (g\<lparr>structure_ann := (structure_ann g)\<lparr>homology :=
                          odict_set hid hdict (homology (structure_ann g))\<rparr>\<rparr>,
                      fs1\<lparr>files := List.insert (op_join dest_gene_dir (basename source))
                                     (files fs1)\<rparr>)))"

text \<open>
  The loop over the genes of the project: a gene that is not a key of the
  input is passed over; an exception ends the method.
\<close>

fun manual_homology_models ::
  "string \<Rightarrow> (string \<times> (string \<times> homology_model) list) list \<Rightarrow> gene list \<Rightarrow> file_system \<Rightarrow>
   (gene list \<times> file_system) \<times> py_error option" where
  "manual_homology_models struct_dir input_dict [] fs = (([], fs), None)"
| "manual_homology_models struct_dir input_dict (g # gs) fs =
     (case map_of input_dict (gene_id g) of
        None \<Rightarrow>
          (case manual_homology_models struct_dir input_dict gs fs of
             ((gs', fs'), res) \<Rightarrow> ((g # gs', fs'), res))
      | Some models \<Rightarrow>
          (case manual_models_of_gene struct_dir models (g, fs) of
             ((g', fs'), Some err) \<Rightarrow> ((g' # gs, fs'), Some err)
           | ((g', fs'), None) \<Rightarrow>
               (case manual_homology_models struct_dir input_dict gs fs' of
                  ((gs', fs''), res) \<Rightarrow> ((g' # gs', fs''), res))))"

section \<open>The genes of the project\<close>

text \<open>
  A gene object as the metabolic model hands it over: the two annotation keys
  may be absent.
\<close>

record model_gene =
  mg_id :: string
  mg_sequence :: "seq_prop option"
  mg_structure :: "struct_prop option"

datatype genes_input = GeneIds "string list" | ModelGenes "model_gene list"

text \<open>
  \<open>Gene(id=x)\<close> with the two annotation dictionaries that the setter and
  \<open>add_genes_by_id\<close> write out literally.
\<close>

definition new_gene_by_id :: "string \<Rightarrow> gene" where
  "new_gene_by_id x =
     \<lparr>gene_id = x,
      sequence =
        \<lparr>kegg = \<lparr>uniprot_acc = None, kegg_id = KeggNone, seq_len = 0, pdbs = [],
                  seq_file = None, metadata_file = None\<rparr>,
         uniprot = [],
         representative = \<lparr>uniprot_acc = None, kegg_id = KeggNone, seq_len = 0, pdbs = [],
                            seq_file = None, metadata_file = None\<rparr>\<rparr>,
      structure_ann =
        \<lparr>homology = [], pdb = [],
         struct_rep = \<lparr>structure_id = NoStructureId, seq_coverage = 0,
                       original_pdb_file = None, clean_pdb_file = None\<rparr>\<rparr>\<rparr>"

text \<open>
  The setter of \<open>genes\<close>. For a list of ids, \<open>list(set(genes_list))\<close> gives the
  distinct ids in an order that Python does not specify; \<open>as_list\<close> is that
  listing. For the genes of a model, an annotation that is absent gets the
  default and one that is present is kept.
\<close>

definition set_genes :: "(string list \<Rightarrow> string list) \<Rightarrow> genes_input \<Rightarrow> gene list" where
  "set_genes as_list genes_list =
     (case genes_list of
        GeneIds ids \<Rightarrow> map new_gene_by_id (as_list ids)
      | ModelGenes gs \<Rightarrow>
          map (\<lambda>x. \<lparr>gene_id = mg_id x,
                     sequence = (case mg_sequence x of
                                   None \<Rightarrow> sequence (new_gene_by_id (mg_id x))
                                 | Some s \<Rightarrow> s),
                     structure_ann = (case mg_structure x of
                                        None \<Rightarrow> structure_ann (new_gene_by_id (mg_id x))
                                      | Some s \<Rightarrow> s)\<rparr>) gs)"

text \<open>
  \<open>DictList.union\<close> of the metabolic-model library: an element is appended
  unless its id is in the list already ("Add unique genes only").
\<close>

definition dictlist_union :: "gene list \<Rightarrow> gene list \<Rightarrow> gene list" where
  "dictlist_union gs new_genes =
     foldl (\<lambda>acc g. if gene_id g \<in> set (map gene_id acc) then acc else acc @ [g]) gs new_genes"

definition add_genes_by_id :: "(string list \<Rightarrow> string list) \<Rightarrow> string list \<Rightarrow> gene list \<Rightarrow> gene list" where
  "add_genes_by_id as_list genes_list gs =
     dictlist_union gs (map new_gene_by_id (as_list genes_list))"

section \<open>Example inputs\<close>

text \<open>
  A project of two genes: \<open>b0002\<close> has a KEGG annotation only; \<open>b0001\<close> has a
  KEGG annotation too, but its sequence was entered by hand.
\<close>

definition manual_gene :: gene where
  "manual_gene =
     manual_seq_mapping_gene ''MKV'' ''b0001.faa''
       \<lparr>gene_id = ''b0001'',
        sequence = default_sequence\<lparr>kegg :=
          empty_seq_record\<lparr>seq_len := 300, seq_file := Some ''eco-b0001.faa''\<rparr>\<rparr>,
        structure_ann = default_structure\<rparr>"

definition kegg_only_gene :: gene where
  "kegg_only_gene =
     \<lparr>gene_id = ''b0002'',
      sequence = default_sequence\<lparr>kegg :=
        empty_seq_record\<lparr>kegg_id := KeggStr ''eco:b0002'', seq_len := 120,
                          seq_file := Some ''eco-b0002.faa''\<rparr>\<rparr>,
      structure_ann = default_structure\<rparr>"

definition manual_project :: gempro where
  "manual_project =
     \<lparr>genes = [kegg_only_gene, manual_gene], sequence_dir = ''sequences'',
      structure_single_chain_dir = ''structures/by_gene'',
      df_sequence_mapping = [], missing_mapping = []\<rparr>"









text \<open>
  Collaborators for the examples: every representative sequence is \<open>MKV\<close>;
  the file of \<open>2bbb\<close> has chain A with that sequence, every other file has
  chains A and B with other sequences; the quality check is equality of the
  two sequences.
\<close>

definition demo_env :: collaborators where
  "demo_env =
     \<lparr>read_fasta = (\<lambda>path. Inr ''MKV''),
      download_structure = (\<lambda>pdb_id outdir rerun. Inr (pdb_id @ ''.pdb'')),
      get_pdb_seqs = (\<lambda>pdb_file.
         if pdb_file = ''2bbb.pdb'' then Inr [(''A'', ''MKV'')]
         else Inr [(''A'', ''MKX''), (''B'', ''MRV'')]),
      sequence_checker = (\<lambda>ref_id ref_seq struct_id struct_seq tol outdir rerun.
         ref_seq = struct_seq),
      write_pdb = (\<lambda>pdb_file keep suffix out_dir.
         op_join out_dir (split_dot_first (basename pdb_file) @ ''_'' @ suffix @ ''.pdb''))\<rparr>"

definition demo_opts :: structure_options where
  "demo_opts =
     \<lparr>always_use_homology = False, sort_homology_by = ''seq_coverage'',
      qc = \<lparr>allow_missing_on_termini = 1 / 10, allow_mutants = True, allow_deletions = False,
            allow_insertions = False, allow_unresolved = True\<rparr>,
      force_rerun = False\<rparr>"

definition ranked :: "string \<Rightarrow> string \<Rightarrow> rat \<Rightarrow> nat \<Rightarrow> pdb_entry" where
  "ranked p c cov n =
     RankedEntry \<lparr>rk_pdb_id = p, rk_pdb_chain_id = c, rk_uniprot_acc = ''P00001'',
       rk_experimental_method = ''X-ray diffraction'', rk_resolution = 2, rk_seq_coverage = cov,
       rk_release_date = ''2001-01-01'', rk_taxonomy_id = 562, rk_pdb_start = 1, rk_pdb_end = 3,
       rk_unp_start = 1, rk_unp_end = 3, rk_rank = n\<rparr>"

definition sequenced :: seq_prop where
  "sequenced = default_sequence\<lparr>representative :=
      empty_seq_record\<lparr>uniprot_acc := Some ''P00001'', seq_len := 3,
                        seq_file := Some ''P00001.fasta''\<rparr>\<rparr>"

text \<open>
  A gene with four ranked candidates of three structures, one with a candidate
  whose chain is not in the structure file, and one whose candidates all fail
  the check and which has three homology models.
\<close>

definition three_structures :: gene where
  "three_structures =
     \<lparr>gene_id = ''b0001'', sequence = sequenced,
      structure_ann = default_structure\<lparr>pdb :=
        [((''1aaa'', ''A''), ranked ''1aaa'' ''A'' 1 1),
         ((''2bbb'', ''A''), ranked ''2bbb'' ''A'' (9 / 10) 2),
         ((''1aaa'', ''B''), ranked ''1aaa'' ''B'' (8 / 10) 3),
         ((''3ccc'', ''A''), ranked ''3ccc'' ''A'' (7 / 10) 4)]\<rparr>\<rparr>"

definition absent_chain :: gene where
  "absent_chain =
     \<lparr>gene_id = ''b0002'', sequence = sequenced,
      structure_ann = default_structure\<lparr>pdb :=
        [((''1aaa'', ''C''), ranked ''1aaa'' ''C'' 1 1),
         ((''2bbb'', ''A''), ranked ''2bbb'' ''A'' (9 / 10) 2)]\<rparr>\<rparr>"

definition model :: "string \<Rightarrow> rat \<Rightarrow> rat \<Rightarrow> homology_model" where
  "model path cov c_score =
     \<lparr>model_file = Some path,
      model_fields = [(''seq_coverage'', cov), (''c_score'', c_score)]\<rparr>"

definition failing_pdbs_and_models :: gene where
  "failing_pdbs_and_models =
     \<lparr>gene_id = ''b0004'', sequence = sequenced,
      structure_ann = default_structure
        \<lparr>homology := [(''m1'', model ''/models/m1.pdb'' (9 / 10) 1),
                      (''m2'', model ''/models/m2.pdb'' (95 / 100) (-1)),
                      (''m3'', model ''/models/m3.pdb'' (95 / 100) 2)],
         pdb := [((''1aaa'', ''A''), ranked ''1aaa'' ''A'' 1 1),
                 ((''1aaa'', ''B''), ranked ''1aaa'' ''B'' (8 / 10) 2)]\<rparr>\<rparr>"


text \<open>
  A gene whose only structure entry came from BLAST, and services that rank
  and hit the same structure \<open>1ABC\<close> (chain \<open>a\<close>, and chains \<open>a\<close> and \<open>b\<close>).
\<close>

definition blast_hit_1abc :: pdb_entry where
  "blast_hit_1abc =
     BlastEntry \<lparr>bl_pdb_id = ''1abc'', bl_pdb_chain_id = ''A'', bl_resolution = 2,
       bl_release_date = ''1999-05-05'', bl_blast_score = 400, bl_blast_evalue = 1 / 1000000,
       bl_seq_coverage = 97 / 100, bl_seq_similar = 98 / 100, bl_seq_num_coverage = 291,
       bl_seq_num_similar = 294\<rparr>"

definition with_blast_hit :: gene where
  "with_blast_hit =
     \<lparr>gene_id = ''b0001'', sequence = sequenced,
      structure_ann = default_structure\<lparr>pdb := [((''1abc'', ''A''), blast_hit_1abc)]\<rparr>\<rparr>"

definition demo_services :: pdb_services where
  "demo_services =
     \<lparr>best_structures = (\<lambda>uniprot_id outdir.
        [\<lparr>bs_pdb_id = ''1ABC'', bs_chain_id = ''a'', bs_experimental_method = ''X-ray diffraction'',
          bs_resolution = 21 / 10, bs_coverage = 1, bs_tax_id = 562, bs_start = 1, bs_end = 300,
          bs_unp_start = 1, bs_unp_end = 300\<rparr>]),
      blast_pdb = (\<lambda>seq_str outdir.
        [\<lparr>hit_pdb = ''1ABC'', hit_pdb_chains = [''a'', ''b''], hit_score = 410,
          hit_evalue = 1 / 10000000, hit_percent_ident = 99 / 100, hit_percent_similar = 1,
          hit_num_ident = 297, hit_num_similar = 300\<rparr>]),
      get_release_date = (\<lambda>pdb_id. ''1999-05-05''),
      get_resolution = (\<lambda>pdb_id. 2),
      fasta = (\<lambda>path. Inr ''MKV'')\<rparr>"


text \<open>
  A manual input for gene \<open>b0004\<close> with three models, the second without
  \<open>'model_file'\<close>, and a file system that has the two model files.
\<close>

definition manual_input :: "(string \<times> (string \<times> homology_model) list) list" where
  "manual_input =
     [(''b0004'',
       [(''good'', model ''/in/good.pdb'' 1 0),
        (''bad'', \<lparr>model_file = None, model_fields = [(''seq_coverage'', 1)]\<rparr>),
        (''late'', model ''/in/late.pdb'' 1 0)])]"

definition disk :: file_system where
  "disk = \<lparr>directories = [''structures''], files = [''/in/good.pdb'', ''/in/late.pdb'']\<rparr>"


section \<open>Properties of \<open>set_representative_sequence\<close>\<close>

text \<open>A gene whose representative has a positive length is left as it is.\<close>

lemma gene_finalized_unchanged:
  "0 < seq_len (representative sp) \<Longrightarrow> fst (set_representative_sequence_gene g sp) = sp"
  by (simp add: set_representative_sequence_gene_def)

lemma update_for_saving_idem:
  "update_for_saving e (update_for_saving e r) = update_for_saving e r"
  by (simp add: update_for_saving_def split: option.splits)

lemma uniprot_as_representative_fields:
  "kegg (fst (uniprot_as_representative b g sp)) = kegg sp
   \<and> uniprot (fst (uniprot_as_representative b g sp)) = uniprot sp"
  by (simp add: uniprot_as_representative_def Let_def split: sum.splits option.splits)

lemma uniprot_as_representative_idem:
  "representative (fst (uniprot_as_representative b g (fst (uniprot_as_representative b g sp))))
   = representative (fst (uniprot_as_representative b g sp))"
  by (auto simp add: uniprot_as_representative_def Let_def update_for_saving_idem split: sum.splits option.splits)

lemma gene_fields:
  "kegg (fst (set_representative_sequence_gene g sp)) = kegg sp
   \<and> uniprot (fst (set_representative_sequence_gene g sp)) = uniprot sp"
  by (simp add: set_representative_sequence_gene_def kegg_as_representative_def uniprot_as_representative_fields)

text \<open>
  For one gene the resolver is idempotent on the representative, finalized or
  not: the second run takes the branch of the first and writes the same values.
\<close>

lemma gene_idem:
  "representative (fst (set_representative_sequence_gene g (fst (set_representative_sequence_gene g sp))))
   = representative (fst (set_representative_sequence_gene g sp))"
proof (cases "0 < seq_len (representative (fst (set_representative_sequence_gene g sp)))")
  case True
  then show ?thesis by (simp add: gene_finalized_unchanged)
next
  case False
  define sp1 where "sp1 = fst (set_representative_sequence_gene g sp)"
  have k: "kegg sp1 = kegg sp" and u: "uniprot sp1 = uniprot sp"
    by (simp_all add: sp1_def gene_fields)
  have nf: "\<not> 0 < seq_len (representative sp1)" using False by (simp add: sp1_def)
  have nf0: "\<not> 0 < seq_len (representative sp)"
    using False by (auto simp add: gene_finalized_unchanged)
  have outer: "representative (fst (set_representative_sequence_gene g sp1)) =
     (if seq_len (kegg sp) > 0 \<and> length (uniprot sp) = 0 then kegg sp
      else if seq_len (kegg sp) = 0 \<and> length (uniprot sp) > 0 then
        representative (fst (uniprot_as_representative False g sp1))
      else if seq_len (kegg sp) > 0 \<and> length (uniprot sp) > 0 then
        (if length (pdbs (kegg sp)) > 0
            \<and> (case uniprot_acc (kegg sp) of
                  None \<Rightarrow> True
                | Some a \<Rightarrow> a \<notin> set (map fst (uniprot sp)))
         then kegg sp
         else representative (fst (uniprot_as_representative True g sp1)))
      else representative sp1)"
    using nf unfolding set_representative_sequence_gene_def kegg_as_representative_def k u
    by simp
  have sp1_cases: "sp1 =
     (if seq_len (kegg sp) > 0 \<and> length (uniprot sp) = 0 then fst (kegg_as_representative g sp)
      else if seq_len (kegg sp) = 0 \<and> length (uniprot sp) > 0 then
        fst (uniprot_as_representative False g sp)
      else if seq_len (kegg sp) > 0 \<and> length (uniprot sp) > 0 then
        (if length (pdbs (kegg sp)) > 0
            \<and> (case uniprot_acc (kegg sp) of
                  None \<Rightarrow> True
                | Some a \<Rightarrow> a \<notin> set (map fst (uniprot sp)))
         then fst (kegg_as_representative g sp)
         else fst (uniprot_as_representative True g sp))
      else sp)"
    using nf0 by (simp add: sp1_def set_representative_sequence_gene_def)
  have "representative (fst (set_representative_sequence_gene g sp1)) = representative sp1"
    unfolding outer
    by (simp add: sp1_cases uniprot_as_representative_idem kegg_as_representative_def)
  then show ?thesis by (simp add: sp1_def)
qed

lemma sequence_loop_ids:
  "map gene_id (fst (sequence_loop gs)) = map gene_id gs"
  by (induction gs) (auto split: prod.splits sum.splits)

lemma sequence_loop_finalized:
  "i < length gs \<Longrightarrow> 0 < seq_len (representative (sequence (gs ! i))) \<Longrightarrow>
   representative (sequence (fst (sequence_loop gs) ! i)) = representative (sequence (gs ! i))"
proof (induction gs arbitrary: i)
  case Nil
  then show ?case by simp
next
  case (Cons g gs)
  show ?case
  proof (cases i)
    case 0
    with Cons.prems have fin: "0 < seq_len (representative (sequence g))" by simp
    have "fst (set_representative_sequence_gene (gene_id g) (sequence g)) = sequence g"
      using fin by (rule gene_finalized_unchanged)
    with 0 show ?thesis by (auto split: prod.splits sum.splits)
  next
    case (Suc j)
    with Cons.prems have "j < length gs" "0 < seq_len (representative (sequence (gs ! j)))" by simp_all
    from Cons.IH[OF this] Suc show ?thesis by (auto split: prod.splits sum.splits)
  qed
qed

lemma set_representative_sequence_genes:
  "genes (fst (set_representative_sequence p)) = fst (sequence_loop (genes p))"
  by (simp add: set_representative_sequence_def split: prod.splits sum.splits)

text \<open>
  Claim C2. A gene whose representative sequence is finalized (\<open>seq_len > 0\<close>)
  keeps its representative record through \<open>set_representative_sequence\<close>,
  whatever happens to the other genes and whether or not the call ends with an
  exception; so it keeps it through two calls in a row. A representative set
  by \<open>manual_seq_mapping\<close> from a non-empty sequence is finalized, and the
  resolver leaves the whole sequence annotation of such a gene unchanged.
\<close>

theorem finalized_representative_unchanged:
  assumes "i < length (genes p)"
    and "0 < seq_len (representative (sequence (genes p ! i)))"
  shows "representative (sequence (genes (fst (set_representative_sequence p)) ! i))
           = representative (sequence (genes p ! i))
       \<and> representative (sequence
            (genes (fst (set_representative_sequence (fst (set_representative_sequence p)))) ! i))
           = representative (sequence (genes p ! i))
       \<and> map gene_id (genes (fst (set_representative_sequence p))) = map gene_id (genes p)
       \<and> (\<forall>s fasta_name g. s \<noteq> [] \<longrightarrow>
            fst (set_representative_sequence_gene (gene_id g)
                   (sequence (manual_seq_mapping_gene s fasta_name g)))
              = sequence (manual_seq_mapping_gene s fasta_name g))"
proof -
  let ?p1 = "fst (set_representative_sequence p)"
  have ids: "map gene_id (genes ?p1) = map gene_id (genes p)"
    by (simp add: set_representative_sequence_genes sequence_loop_ids)
  have first: "representative (sequence (genes ?p1 ! i)) = representative (sequence (genes p ! i))"
    using assms by (simp add: set_representative_sequence_genes sequence_loop_finalized)
  have len: "i < length (genes ?p1)"
    using assms(1) ids by (metis length_map)
  have second: "representative (sequence (genes (fst (set_representative_sequence ?p1)) ! i))
                  = representative (sequence (genes ?p1 ! i))"
    using len assms(2) first
    by (simp add: set_representative_sequence_genes sequence_loop_finalized)
  have manual: "fst (set_representative_sequence_gene (gene_id g)
                   (sequence (manual_seq_mapping_gene s fasta_name g)))
              = sequence (manual_seq_mapping_gene s fasta_name g)" if "s \<noteq> []" for s fasta_name g
    using that by (intro gene_finalized_unchanged) (simp add: manual_seq_mapping_gene_def)
  show ?thesis using ids first second manual by simp
qed

theorem finalized_representative_unchanged_witness:
  "(1::nat) < length (genes manual_project)
   \<and> 0 < seq_len (representative (sequence (genes manual_project ! 1)))
   \<and> representative (sequence (genes (fst (set_representative_sequence manual_project)) ! 1))
       = empty_seq_record\<lparr>seq_len := 3, seq_file := Some ''b0001.faa''\<rparr>
   \<and> representative (sequence (genes (fst (set_representative_sequence manual_project)) ! 0))
       = kegg (sequence kegg_only_gene)"
proof -
  have h1: "(1::nat) < length (genes manual_project)"
    by (simp add: manual_project_def)
  have rep: "representative (sequence (genes manual_project ! 1))
       = empty_seq_record\<lparr>seq_len := 3, seq_file := Some ''b0001.faa''\<rparr>"
    by (simp add: manual_project_def manual_gene_def manual_seq_mapping_gene_def
        default_sequence_def)
  have h2: "0 < seq_len (representative (sequence (genes manual_project ! 1)))"
    unfolding rep by (simp add: empty_seq_record_def)
  have other: "representative (sequence (genes (fst (set_representative_sequence manual_project)) ! 0))
       = kegg (sequence kegg_only_gene)"
    by (simp add: set_representative_sequence_genes manual_project_def kegg_only_gene_def
        set_representative_sequence_gene_def kegg_as_representative_def default_sequence_def
        empty_seq_record_def split: prod.splits sum.splits)
  show ?thesis
    using finalized_representative_unchanged [OF h1 h2] h1 h2 rep other by simp
qed


subsection \<open>The stable descending sort and the ranking\<close>

lemma sorted_reverse_Cons:
  "sorted_reverse f (x # xs) = insort_reverse f x (sorted_reverse f xs)"
  by (simp add: sorted_reverse_def)

lemma insort_reverse_hd:
  "hd (insort_reverse f x ys) = (if ys = [] \<or> f (hd ys) \<le> f x then x else hd ys)"
  by (cases ys) auto

lemma insort_reverse_not_Nil: "insort_reverse f x ys \<noteq> []"
  by (cases ys) auto

lemma sorted_reverse_Nil_iff: "sorted_reverse f xs = [] \<longleftrightarrow> xs = []"
  by (cases xs) (auto simp: sorted_reverse_def insort_reverse_not_Nil)

lemma sorted_reverse_hd_first_max:
  "xs \<noteq> [] \<Longrightarrow>
   \<exists>i<length xs. hd (sorted_reverse f xs) = xs ! i
      \<and> (\<forall>j<length xs. f (xs ! j) \<le> f (xs ! i))
      \<and> (\<forall>j<i. f (xs ! j) < f (xs ! i))"
proof (induction xs)
  case Nil
  then show ?case by simp
next
  case (Cons x xs)
  show ?case
  proof (cases "xs = []")
    case True
    then show ?thesis by (simp add: sorted_reverse_def)
  next
    case False
    from Cons.IH[OF False] obtain i where i: "i < length xs"
      and hd: "hd (sorted_reverse f xs) = xs ! i"
      and mx: "\<forall>j<length xs. f (xs ! j) \<le> f (xs ! i)"
      and fst: "\<forall>j<i. f (xs ! j) < f (xs ! i)" by blast
    have ne: "sorted_reverse f xs \<noteq> []" using False by (simp add: sorted_reverse_Nil_iff)
    show ?thesis
    proof (cases "f (xs ! i) \<le> f x")
      case True
      have "hd (sorted_reverse f (x # xs)) = (x # xs) ! 0"
        using True ne hd by (simp add: sorted_reverse_Cons insort_reverse_hd)
      moreover have "\<forall>j<length (x # xs). f ((x # xs) ! j) \<le> f ((x # xs) ! 0)"
      proof (intro allI impI)
        fix j assume "j < length (x # xs)"
        then show "f ((x # xs) ! j) \<le> f ((x # xs) ! 0)"
          using mx True by (cases j) (auto intro: order_trans)
      qed
      ultimately show ?thesis by (intro exI[of _ 0]) simp
    next
      case False
      then have lt: "f x < f (xs ! i)" by simp
      have "hd (sorted_reverse f (x # xs)) = (x # xs) ! Suc i"
        using False ne hd by (simp add: sorted_reverse_Cons insort_reverse_hd)
      moreover have "\<forall>j<length (x # xs). f ((x # xs) ! j) \<le> f ((x # xs) ! Suc i)"
      proof (intro allI impI)
        fix j assume "j < length (x # xs)"
        then show "f ((x # xs) ! j) \<le> f ((x # xs) ! Suc i)"
          using mx lt by (cases j) auto
      qed
      moreover have "\<forall>j<Suc i. f ((x # xs) ! j) < f ((x # xs) ! Suc i)"
      proof (intro allI impI)
        fix j assume "j < Suc i"
        then show "f ((x # xs) ! j) < f ((x # xs) ! Suc i)"
          using fst lt by (cases j) auto
      qed
      ultimately show ?thesis using i by (intro exI[of _ "Suc i"]) simp
    qed
  qed
qed













section \<open>Properties of \<open>set_representative_structure\<close>\<close>

subsection \<open>The order of evaluation\<close>

lemma unique_snoc:
  "unique (xs @ [x]) = (if x \<in> set xs then unique xs else unique xs @ [x])"
  by (simp add: unique_def)

lemma set_unique: "set (unique xs) = set xs"
  by (simp add: unique_def)

lemma distinct_unique: "distinct (unique xs)"
  by (simp add: unique_def)

lemma append_chain_map:
  "distinct ps \<Longrightarrow>
   append_chain p c (map (\<lambda>q. (q, F q)) ps) =
     (if p \<in> set ps then map (\<lambda>q. (q, if q = p then F q @ [c] else F q)) ps
      else map (\<lambda>q. (q, F q)) ps @ [(p, [c])])"
  by (induction ps) auto

lemma convert_to_dict_snoc:
  "convert_to_dict (keys @ [k]) = append_chain (fst k) (snd k) (convert_to_dict keys)"
  by (simp add: convert_to_dict_def)

lemma convert_to_dict_groups:
  "convert_to_dict keys =
     map (\<lambda>p. (p, map snd (filter (\<lambda>k. fst k = p) keys))) (unique (map fst keys))"
proof (induction keys rule: rev_induct)
  case Nil
  then show ?case by (simp add: convert_to_dict_def unique_def)
next
  case (snoc k keys)
  obtain p c where k: "k = (p, c)" by (cases k)
  show ?case
  proof (cases "p \<in> set (map fst keys)")
    case True
    then show ?thesis
      unfolding convert_to_dict_snoc snoc.IH k
      by (simp add: append_chain_map distinct_unique set_unique unique_snoc)
  next
    case False
    then have "filter (\<lambda>k. fst k = q) keys = filter (\<lambda>k. fst k = q) keys" for q by simp
    have nop: "\<And>q. q \<in> set (unique (map fst keys)) \<Longrightarrow> q \<noteq> p"
      using False by (auto simp add: set_unique)
    have nof: "filter (\<lambda>k. fst k = p) keys = []"
      using False by (auto simp add: filter_empty_conv)
    show ?thesis
      unfolding convert_to_dict_snoc snoc.IH k
      using False nop nof
      by (auto simp add: append_chain_map distinct_unique set_unique unique_snoc)
  qed
qed

lemma pair_snd_filter:
  "map (\<lambda>k. (p, snd k)) (filter (\<lambda>k. fst k = p) keys) = filter (\<lambda>k. fst k = p) keys"
  by (induction keys) auto

lemma visit_order_convert_to_dict:
  "visit_order (convert_to_dict keys) = grouped_order keys"
  by (simp add: visit_order_def convert_to_dict_groups grouped_order_def comp_def pair_snd_filter)

lemma convert_to_dict_nonempty:
  "\<forall>g\<in>set (convert_to_dict keys). snd g \<noteq> []"
  by (auto simp add: convert_to_dict_groups set_unique filter_empty_conv)

subsection \<open>The nested loops are a linear search\<close>

lemma search_result_append:
  "search_result st (xs @ ys) =
     (if \<forall>x\<in>set xs. st x = Fails then search_result st ys else search_result st xs)"
  by (induction xs) (auto simp add: search_result_def)

lemma search_checked_append:
  "search_checked st (xs @ ys) =
     (if \<forall>x\<in>set xs. st x = Fails then xs @ search_checked st ys else search_checked st xs)"
  by (induction xs) (auto simp add: search_checked_def)

lemma search_result_Cons:
  "search_result st (x # xs) =
     (case st x of Fails \<Rightarrow> search_result st xs
      | Passes f \<Rightarrow> Found (fst x) (snd x) f | Breaks e \<Rightarrow> Raised e)"
  by (auto simp add: search_result_def split: candidate_outcome.splits)

lemma search_checked_Cons:
  "search_checked st (x # xs) =
     (case st x of Fails \<Rightarrow> x # search_checked st xs
      | Passes f \<Rightarrow> [x] | Breaks e \<Rightarrow> [])"
  by (auto simp add: search_checked_def split: candidate_outcome.splits)

lemma search_Nil: "search_result st [] = Exhausted" "search_checked st [] = []"
  by (simp_all add: search_result_def search_checked_def)

lemma check_chains_linear:
  assumes dl: "download_structure env p dir (force_rerun opts) = Inr pf"
    and seqs: "get_pdb_seqs env pf = Inr cts"
  shows "lift_chain p pf (fst (check_chains env opts rid rseq dir p cts cs))
           = search_result (candidate_status env opts rid rseq dir) (map (Pair p) cs)
       \<and> checked_pairs (snd (check_chains env opts rid rseq dir p cts cs))
           = search_checked (candidate_status env opts rid rseq dir) (map (Pair p) cs)
       \<and> (fst (check_chains env opts rid rseq dir p cts cs) = ChainsExhausted
            \<longleftrightarrow> (\<forall>c\<in>set cs. candidate_status env opts rid rseq dir (p, c) = Fails))"
proof (induction cs)
  case Nil
  then show ?case by (simp add: search_Nil)
next
  case (Cons c cs)
  show ?case
  proof (cases "map_of cts c")
    case None
    then have st: "candidate_status env opts rid rseq dir (p, c) = Breaks KeyError"
      by (simp add: candidate_status_def dl seqs)
    show ?thesis using None st by (simp add: search_result_Cons search_checked_Cons)
  next
    case (Some sq)
    show ?thesis
    proof (cases "sequence_checker env rid rseq (p @ ''_'' @ c) sq (qc opts) dir (force_rerun opts)")
      case True
      then have st: "candidate_status env opts rid rseq dir (p, c) = Passes pf"
        by (simp add: candidate_status_def dl seqs Some)
      show ?thesis using Some True st by (simp add: search_result_Cons search_checked_Cons)
    next
      case False
      then have st: "candidate_status env opts rid rseq dir (p, c) = Fails"
        by (simp add: candidate_status_def dl seqs Some)
      show ?thesis using Some False st Cons.IH
        by (auto simp add: search_result_Cons search_checked_Cons split: prod.splits)
    qed
  qed
qed

lemma checked_pairs_append: "checked_pairs (es @ fs) = checked_pairs es @ checked_pairs fs"
  by (induction es rule: checked_pairs.induct) auto

lemma visit_order_Cons:
  "visit_order ((p, cs) # d) = map (Pair p) cs @ visit_order d"
  by (simp add: visit_order_def)

text \<open>
  The two loops give the result of the linear search over the visit order,
  and put exactly its checked candidates to the quality check.
\<close>

lemma search_pdbs_linear:
  assumes "\<forall>g\<in>set d. snd g \<noteq> []"
  shows "fst (search_pdbs env opts rid rseq dir d)
           = search_result (candidate_status env opts rid rseq dir) (visit_order d)
       \<and> checked_pairs (snd (search_pdbs env opts rid rseq dir d))
           = search_checked (candidate_status env opts rid rseq dir) (visit_order d)"
  using assms
proof (induction d)
  case Nil
  then show ?case by (simp add: visit_order_def search_Nil)
next
  case (Cons g d)
  obtain p cs where g: "g = (p, cs)" by (cases g)
  from Cons.prems g obtain c cs' where cs: "cs = c # cs'" by (cases cs) auto
  let ?st = "candidate_status env opts rid rseq dir"
  have IH: "fst (search_pdbs env opts rid rseq dir d) = search_result ?st (visit_order d)"
    "checked_pairs (snd (search_pdbs env opts rid rseq dir d)) = search_checked ?st (visit_order d)"
    using Cons by simp_all
  show ?case
  proof (cases "download_structure env p dir (force_rerun opts)")
    case (Inl e)
    then have "?st (p, c) = Breaks e" by (simp add: candidate_status_def)
    then show ?thesis using Inl g cs
      by (simp add: visit_order_Cons search_result_Cons search_checked_Cons)
  next
    case (Inr pf)
    show ?thesis
    proof (cases "get_pdb_seqs env pf")
      case (Inl e)
      then have "?st (p, c) = Breaks e" using Inr by (simp add: candidate_status_def)
      then show ?thesis using Inl Inr g cs
        by (simp add: visit_order_Cons search_result_Cons search_checked_Cons)
    next
      case seqs: (Inr cts)
      note lin = check_chains_linear[OF Inr seqs, of rid rseq cs]
      obtain r effs where cc: "check_chains env opts rid rseq dir p cts cs = (r, effs)"
        by (cases "check_chains env opts rid rseq dir p cts cs")
      from lin cc have r: "lift_chain p pf r = search_result ?st (map (Pair p) cs)"
        and e: "checked_pairs effs = search_checked ?st (map (Pair p) cs)"
        and ex: "r = ChainsExhausted \<longleftrightarrow> (\<forall>c\<in>set cs. ?st (p, c) = Fails)" by simp_all
      have app_r: "search_result ?st (visit_order (g # d)) =
          (if r = ChainsExhausted then search_result ?st (visit_order d)
           else search_result ?st (map (Pair p) cs))"
        by (simp add: g visit_order_Cons search_result_append ex[symmetric])
      have app_c: "search_checked ?st (visit_order (g # d)) =
          (if r = ChainsExhausted then map (Pair p) cs @ search_checked ?st (visit_order d)
           else search_checked ?st (map (Pair p) cs))"
        by (simp add: g visit_order_Cons search_checked_append ex[symmetric])
      have exh: "search_checked ?st (map (Pair p) cs) = map (Pair p) cs" if "r = ChainsExhausted"
        using that ex search_checked_append[of ?st "map (Pair p) cs" "[]"]
        by (simp add: search_Nil)
      show ?thesis
      proof (cases r)
        case (ChainFound ch)
        then show ?thesis unfolding app_r app_c using g Inr seqs cc r e
          by simp
      next
        case ChainsExhausted
        obtain r' effs' where sp: "search_pdbs env opts rid rseq dir d = (r', effs')"
          by (cases "search_pdbs env opts rid rseq dir d")
        with IH have "r' = search_result ?st (visit_order d)"
          "checked_pairs effs' = search_checked ?st (visit_order d)" by simp_all
        then show ?thesis unfolding app_r app_c using ChainsExhausted g Inr seqs cc e exh sp
          by (simp add: checked_pairs_append)
      next
        case (ChainRaised err)
        then show ?thesis unfolding app_r app_c using g Inr seqs cc r e
          by simp
      qed
    qed
  qed
qed

lemma set_grouped_order: "set (grouped_order keys) = set keys"
  by (auto simp add: grouped_order_def set_unique)


subsection \<open>Source selection\<close>

text \<open>
  Claim C7. A gene with neither homology models nor PDB candidates is skipped:
  nothing is written and nothing is called. With \<open>always_use_homology\<close> the
  homology branch runs when the gene has a model, else the PDB branch; without
  it the PDB branch runs when the gene has a PDB candidate (also when it has
  models), else the homology branch. The last two lines give the flags
  \<open>(use_homology, use_pdb)\<close> that the nested conditionals compute.
\<close>

theorem source_selection:
  "(pdb (structure_ann g) = [] \<and> homology (structure_ann g) = [] \<longrightarrow>
      set_representative_structure_gene env opts seq_dir struct_dir bound g
        = \<lparr>new_gene = g, chain_bound = bound, effects = [], raised = None\<rparr>)
   \<and> (always_use_homology opts \<and> homology (structure_ann g) \<noteq> [] \<longrightarrow>
      set_representative_structure_gene env opts seq_dir struct_dir bound g
        = homology_path env opts (op_join struct_dir (gene_id g)) bound [] g)
   \<and> (always_use_homology opts \<and> homology (structure_ann g) = [] \<and> pdb (structure_ann g) \<noteq> [] \<longrightarrow>
      set_representative_structure_gene env opts seq_dir struct_dir bound g
        = pdb_path env opts (op_join seq_dir (gene_id g)) (op_join struct_dir (gene_id g)) bound g)
   \<and> (\<not> always_use_homology opts \<and> pdb (structure_ann g) \<noteq> [] \<longrightarrow>
      set_representative_structure_gene env opts seq_dir struct_dir bound g
        = pdb_path env opts (op_join seq_dir (gene_id g)) (op_join struct_dir (gene_id g)) bound g)
   \<and> (\<not> always_use_homology opts \<and> pdb (structure_ann g) = [] \<and> homology (structure_ann g) \<noteq> [] \<longrightarrow>
      set_representative_structure_gene env opts seq_dir struct_dir bound g
        = homology_path env opts (op_join struct_dir (gene_id g)) bound [] g)
   \<and> select_source True has_homology has_pdb = (has_homology, \<not> has_homology \<and> has_pdb)
   \<and> select_source False has_homology has_pdb = (has_homology \<and> \<not> has_pdb, has_pdb)"
  by (auto simp add: set_representative_structure_gene_def select_source_def Let_def)


theorem source_selection_witness:
  "set_representative_structure_gene demo_env demo_opts ''sequences'' ''structures'' False
     kegg_only_gene
     = \<lparr>new_gene = kegg_only_gene, chain_bound = False, effects = [], raised = None\<rparr>
   \<and> set_representative_structure_gene demo_env demo_opts ''sequences'' ''structures'' False
       three_structures
     = pdb_path demo_env demo_opts (op_join ''sequences'' (gene_id three_structures))
         (op_join ''structures'' (gene_id three_structures)) False three_structures
   \<and> set_representative_structure_gene demo_env (demo_opts\<lparr>always_use_homology := True\<rparr>)
       ''sequences'' ''structures'' True failing_pdbs_and_models
     = homology_path demo_env (demo_opts\<lparr>always_use_homology := True\<rparr>)
         (op_join ''structures'' (gene_id failing_pdbs_and_models)) True []
         failing_pdbs_and_models"
proof -
  have none: "pdb (structure_ann kegg_only_gene) = [] \<and> homology (structure_ann kegg_only_gene) = []"
    by (simp add: kegg_only_gene_def default_structure_def)
  have pdbs: "\<not> always_use_homology demo_opts \<and> pdb (structure_ann three_structures) \<noteq> []"
    by (simp add: demo_opts_def three_structures_def default_structure_def)
  have models: "always_use_homology (demo_opts\<lparr>always_use_homology := True\<rparr>)
      \<and> homology (structure_ann failing_pdbs_and_models) \<noteq> []"
    by (simp add: failing_pdbs_and_models_def default_structure_def)
  show ?thesis
    using source_selection [of kegg_only_gene demo_env demo_opts "''sequences''" "''structures''"
        False True True] none
      source_selection [of three_structures demo_env demo_opts "''sequences''" "''structures''"
        False True True] pdbs
      source_selection [of failing_pdbs_and_models demo_env
        "demo_opts\<lparr>always_use_homology := True\<rparr>" "''sequences''" "''structures''"
        True True True] models
    by simp
qed

subsection \<open>The PDB branch\<close>

lemma pdb_path_search:
  assumes "seq_file (representative (sequence g)) = Some f"
    and "read_fasta env (op_join gsd f) = Inr ref_seq"
  shows "pdb_path env opts gsd dir bound g =
     (case search_pdbs env opts (split_dot_first f) ref_seq dir
              (convert_to_dict (map fst (pdb (structure_ann g)))) of
        (Raised err, effs) \<Rightarrow>
          \<lparr>new_gene = g, chain_bound = bound, effects = effs, raised = Some err\<rparr>
      | (Found pdb_id ch pdb_file, effs) \<Rightarrow>
          set_pdb_representative env dir pdb_id ch pdb_file effs g
      | (Exhausted, effs) \<Rightarrow>
          (if homology (structure_ann g) \<noteq> [] then
             homology_path env opts dir (bound \<or> pdb (structure_ann g) \<noteq> []) effs g
           else
             \<lparr>new_gene = g, chain_bound = (bound \<or> pdb (structure_ann g) \<noteq> []), effects = effs,
              raised = None\<rparr>))"
  using assms by (simp add: pdb_path_def Let_def split: prod.splits pdb_search.splits)

lemma search_on_keys:
  "fst (search_pdbs env opts rid rseq dir (convert_to_dict keys))
           = search_result (candidate_status env opts rid rseq dir) (grouped_order keys)
   \<and> checked_pairs (snd (search_pdbs env opts rid rseq dir (convert_to_dict keys)))
           = search_checked (candidate_status env opts rid rseq dir) (grouped_order keys)"
  using search_pdbs_linear[OF convert_to_dict_nonempty, of env opts rid rseq dir keys]
  by (simp add: visit_order_convert_to_dict)

lemma search_result_first:
  assumes "xs = pre @ x # post" and "\<forall>y\<in>set pre. st y = Fails"
  shows "search_result st xs =
           (case st x of Fails \<Rightarrow> search_result st post
            | Passes f \<Rightarrow> Found (fst x) (snd x) f | Breaks e \<Rightarrow> Raised e)"
    and "search_checked st xs =
           pre @ (case st x of Fails \<Rightarrow> x # search_checked st post
            | Passes f \<Rightarrow> [x] | Breaks e \<Rightarrow> [])"
  using assms by (simp_all add: search_result_append search_checked_append
      search_result_Cons search_checked_Cons)

lemma search_all_fail:
  assumes "\<forall>y\<in>set xs. st y = Fails"
  shows "search_result st xs = Exhausted" and "search_checked st xs = xs"
  using assms search_result_append[of st xs "[]"] search_checked_append[of st xs "[]"]
  by (simp_all add: search_Nil)

lemma checked_pairs_Cleaned: "checked_pairs (es @ [Cleaned a b]) = checked_pairs es"
  by (simp add: checked_pairs_append)

lemma pdb_path_taken:
  assumes "pdb (structure_ann g) \<noteq> []"
    and "\<not> always_use_homology opts \<or> homology (structure_ann g) = []"
  shows "set_representative_structure_gene env opts seq_dir struct_dir bound g
        = pdb_path env opts (op_join seq_dir (gene_id g)) (op_join struct_dir (gene_id g)) bound g"
  using assms
  by (auto simp add: set_representative_structure_gene_def select_source_def Let_def)


text \<open>
  Claim C1. For a gene that takes the PDB branch and whose representative
  sequence can be read: when the candidates, in the order "structures by first
  appearance, chains of a structure in key order", are \<open>pre\<close>, then \<open>(p, c)\<close>,
  then \<open>post\<close>, every candidate of \<open>pre\<close> fails the quality check and
  \<open>(p, c)\<close> passes it, then the representative structure becomes \<open>(p, c)\<close>
  (with the coverage of its entry and the two file names), and the quality
  check was run on \<open>pre\<close> and \<open>(p, c)\<close> and on no candidate of \<open>post\<close>.
\<close>

theorem first_passing_candidate_wins:
  assumes "pdb (structure_ann g) \<noteq> []"
    and "\<not> always_use_homology opts \<or> homology (structure_ann g) = []"
    and "seq_file (representative (sequence g)) = Some f"
    and "read_fasta env (op_join (op_join seq_dir (gene_id g)) f) = Inr ref_seq"
    and "grouped_order (map fst (pdb (structure_ann g))) = pre @ (p, c) # post"
    and "\<forall>x\<in>set pre. candidate_status env opts (split_dot_first f) ref_seq
                         (op_join struct_dir (gene_id g)) x = Fails"
    and "candidate_status env opts (split_dot_first f) ref_seq
           (op_join struct_dir (gene_id g)) (p, c) = Passes pdb_file"
  shows "\<exists>entry effs.
           map_of (pdb (structure_ann g)) (p, c) = Some entry
         \<and> checked_pairs effs = pre @ [(p, c)]
         \<and> set_representative_structure_gene env opts seq_dir struct_dir bound g =
             \<lparr>new_gene = set_struct_rep
                \<lparr>structure_id = PdbChain p c,
                 seq_coverage = entry_seq_coverage entry,
                 original_pdb_file = Some (basename pdb_file),
                 clean_pdb_file = Some (basename
                   (write_pdb env pdb_file (Some c) (c @ ''_clean'')
                      (op_join struct_dir (gene_id g))))\<rparr> g,
              chain_bound = True,
              effects = effs @ [Cleaned pdb_file (Some c)],
              raised = None\<rparr>"
proof -
  let ?dir = "op_join struct_dir (gene_id g)"
  let ?keys = "map fst (pdb (structure_ann g))"
  let ?st = "candidate_status env opts (split_dot_first f) ref_seq ?dir"
  obtain r effs where sp:
    "search_pdbs env opts (split_dot_first f) ref_seq ?dir (convert_to_dict ?keys) = (r, effs)"
    by (cases "search_pdbs env opts (split_dot_first f) ref_seq ?dir (convert_to_dict ?keys)")
  from search_on_keys[of env opts "split_dot_first f" ref_seq ?dir ?keys] sp
  have r: "r = search_result ?st (grouped_order ?keys)"
    and e: "checked_pairs effs = search_checked ?st (grouped_order ?keys)" by simp_all
  have r': "r = Found p c pdb_file"
    unfolding r using search_result_first(1)[OF assms(5,6)] assms(7) by simp
  have e': "checked_pairs effs = pre @ [(p, c)]"
    unfolding e using search_result_first(2)[OF assms(5,6)] assms(7) by simp
  have "(p, c) \<in> set ?keys"
    using assms(5) set_grouped_order[of ?keys] by (metis in_set_conv_decomp)
  then obtain entry where entry: "map_of (pdb (structure_ann g)) (p, c) = Some entry"
    by (metis map_of_eq_None_iff not_Some_eq set_map)
  have "set_representative_structure_gene env opts seq_dir struct_dir bound g
      = set_pdb_representative env ?dir p c pdb_file effs g"
    unfolding pdb_path_taken[OF assms(1,2)] pdb_path_search[OF assms(3,4)] sp r' by simp
  then show ?thesis
    using entry e' by (simp add: set_pdb_representative_def)
qed

lemma demo_order:
  "grouped_order (map fst (pdb (structure_ann three_structures)))
     = [(''1aaa'', ''A''), (''1aaa'', ''B'')] @ (''2bbb'', ''A'') # [(''3ccc'', ''A'')]"
  by (simp add: three_structures_def default_structure_def grouped_order_def unique_def)

theorem first_passing_candidate_wins_witness:
  "structure_id (struct_rep (structure_ann (new_gene
      (set_representative_structure_gene demo_env demo_opts ''sequences'' ''structures'' False
         three_structures)))) = PdbChain ''2bbb'' ''A''
   \<and> checked_pairs (effects
      (set_representative_structure_gene demo_env demo_opts ''sequences'' ''structures'' False
         three_structures)) = [(''1aaa'', ''A''), (''1aaa'', ''B''), (''2bbb'', ''A'')]
   \<and> raised
      (set_representative_structure_gene demo_env demo_opts ''sequences'' ''structures'' False
         three_structures) = None"
proof -
  have h1: "pdb (structure_ann three_structures) \<noteq> []"
    and h2: "\<not> always_use_homology demo_opts \<or> homology (structure_ann three_structures) = []"
    and h3: "seq_file (representative (sequence three_structures)) = Some ''P00001.fasta''"
    and h4: "read_fasta demo_env
               (op_join (op_join ''sequences'' (gene_id three_structures)) ''P00001.fasta'')
             = Inr ''MKV''"
    by (simp_all add: three_structures_def default_structure_def demo_opts_def sequenced_def
        default_sequence_def empty_seq_record_def demo_env_def)
  have h6: "\<forall>x\<in>set [(''1aaa'', ''A''), (''1aaa'', ''B'')].
              candidate_status demo_env demo_opts (split_dot_first ''P00001.fasta'') ''MKV''
                (op_join ''structures'' (gene_id three_structures)) x = Fails"
    and h7: "candidate_status demo_env demo_opts (split_dot_first ''P00001.fasta'') ''MKV''
                (op_join ''structures'' (gene_id three_structures)) (''2bbb'', ''A'')
             = Passes ''2bbb.pdb''"
    by (simp_all add: candidate_status_def demo_env_def demo_opts_def)
  from first_passing_candidate_wins [OF h1 h2 h3 h4 demo_order h6 h7, of False]
  obtain entry effs where
    "checked_pairs effs = [(''1aaa'', ''A''), (''1aaa'', ''B'')] @ [(''2bbb'', ''A'')]"
    and "set_representative_structure_gene demo_env demo_opts ''sequences'' ''structures'' False
           three_structures =
             \<lparr>new_gene = set_struct_rep
                \<lparr>structure_id = PdbChain ''2bbb'' ''A'',
                 seq_coverage = entry_seq_coverage entry,
                 original_pdb_file = Some (basename ''2bbb.pdb''),
                 clean_pdb_file = Some (basename
                   (write_pdb demo_env ''2bbb.pdb'' (Some ''A'') (''A'' @ ''_clean'')
                      (op_join ''structures'' (gene_id three_structures))))\<rparr> three_structures,
              chain_bound = True,
              effects = effs @ [Cleaned ''2bbb.pdb'' (Some ''A'')],
              raised = None\<rparr>"
    by blast
  then show ?thesis
    by (simp add: set_struct_rep_def checked_pairs_append)
qed


text \<open>
  Claim C8 as stated fails. The first candidate of gene \<open>b0002\<close> names chain C,
  which the structure file does not have; the second candidate would pass
  the check. The lookup \<open>chain_to_seq[chain]\<close> raises \<open>KeyError\<close>, the \<open>try\<close>
  handles \<open>StopIteration\<close> only, and the method ends with the exception: the
  candidate is not skipped and the second one is never checked.
\<close>

theorem no_handler_for_absent_chain:
  "raised (set_representative_structure_gene demo_env demo_opts ''sequences'' ''structures'' False
             absent_chain) = Some KeyError
   \<and> new_gene (set_representative_structure_gene demo_env demo_opts ''sequences'' ''structures''
                 False absent_chain) = absent_chain
   \<and> checked_pairs (effects
         (set_representative_structure_gene demo_env demo_opts ''sequences'' ''structures'' False
            absent_chain)) = []
   \<and> candidate_status demo_env demo_opts ''P00001'' ''MKV'' (op_join ''structures'' ''b0002'')
        (''2bbb'', ''A'') = Passes ''2bbb.pdb''"
  by (simp add: set_representative_structure_gene_def select_source_def pdb_path_def Let_def
      absent_chain_def default_structure_def sequenced_def default_sequence_def
      empty_seq_record_def demo_env_def demo_opts_def convert_to_dict_def op_join_def
      split_dot_first_def candidate_status_def)


text \<open>
  Claim C8, amended. In the PDB branch only a candidate that fails the quality
  check is passed over. A missing name of the representative sequence file
  (\<open>AttributeError\<close>), an exception of the reading of that file, and an
  exception at a candidate (of the download, of the reading of the chain
  sequences, or the \<open>KeyError\<close> of a chain that the structure file does not
  have) leave the method: the gene is unchanged, the candidates checked are
  those before the one that raised, and the loop over the genes ends there.
\<close>

theorem candidate_exception_leaves_method:
  fixes env opts seq_dir struct_dir bound g
  defines "out \<equiv> set_representative_structure_gene env opts seq_dir struct_dir bound g"
    and "st \<equiv> (\<lambda>f ref_seq. candidate_status env opts (split_dot_first f) ref_seq
                    (op_join struct_dir (gene_id g)))"
  assumes "pdb (structure_ann g) \<noteq> []"
    and "\<not> always_use_homology opts \<or> homology (structure_ann g) = []"
  shows "(seq_file (representative (sequence g)) = None \<longrightarrow>
            out = \<lparr>new_gene = g, chain_bound = bound, effects = [], raised = Some AttributeError\<rparr>)
       \<and> (\<forall>f err. seq_file (representative (sequence g)) = Some f
              \<and> read_fasta env (op_join (op_join seq_dir (gene_id g)) f) = Inl err \<longrightarrow>
            out = \<lparr>new_gene = g, chain_bound = bound, effects = [], raised = Some err\<rparr>)
       \<and> (\<forall>f ref_seq pre x post err.
              seq_file (representative (sequence g)) = Some f
              \<and> read_fasta env (op_join (op_join seq_dir (gene_id g)) f) = Inr ref_seq
              \<and> grouped_order (map fst (pdb (structure_ann g))) = pre @ x # post
              \<and> (\<forall>y\<in>set pre. st f ref_seq y = Fails)
              \<and> st f ref_seq x = Breaks err \<longrightarrow>
            raised out = Some err \<and> new_gene out = g \<and> checked_pairs (effects out) = pre)
       \<and> (\<forall>f ref_seq x pdb_file chain_to_seq.
              download_structure env (fst x) (op_join struct_dir (gene_id g)) (force_rerun opts)
                = Inr pdb_file
              \<and> get_pdb_seqs env pdb_file = Inr chain_to_seq
              \<and> map_of chain_to_seq (snd x) = None \<longrightarrow>
            st f ref_seq x = Breaks KeyError)
       \<and> (\<forall>err gs. raised out = Some err \<longrightarrow>
            structure_loop env opts seq_dir struct_dir bound (g # gs)
              = (new_gene out # gs, effects out, Some err))"
proof -
  let ?gsd = "op_join seq_dir (gene_id g)"
  let ?dir = "op_join struct_dir (gene_id g)"
  let ?keys = "map fst (pdb (structure_ann g))"
  have path: "out = pdb_path env opts ?gsd ?dir bound g"
    unfolding out_def by (rule pdb_path_taken[OF assms(3,4)])
  have a: "out = \<lparr>new_gene = g, chain_bound = bound, effects = [], raised = Some AttributeError\<rparr>"
    if "seq_file (representative (sequence g)) = None"
    using that by (simp add: path pdb_path_def)
  have b: "out = \<lparr>new_gene = g, chain_bound = bound, effects = [], raised = Some err\<rparr>"
    if "seq_file (representative (sequence g)) = Some f" "read_fasta env (op_join ?gsd f) = Inl err"
    for f err
    using that by (simp add: path pdb_path_def)
  have c: "raised out = Some err \<and> new_gene out = g \<and> checked_pairs (effects out) = pre"
    if sf: "seq_file (representative (sequence g)) = Some f"
      and rd: "read_fasta env (op_join ?gsd f) = Inr ref_seq"
      and ord: "grouped_order ?keys = pre @ x # post"
      and fl: "\<forall>y\<in>set pre. st f ref_seq y = Fails"
      and br: "st f ref_seq x = Breaks err"
    for f ref_seq pre x post err
  proof -
    obtain r effs where sp:
      "search_pdbs env opts (split_dot_first f) ref_seq ?dir (convert_to_dict ?keys) = (r, effs)"
      by (cases "search_pdbs env opts (split_dot_first f) ref_seq ?dir (convert_to_dict ?keys)")
    from search_on_keys[of env opts "split_dot_first f" ref_seq ?dir ?keys] sp
    have r: "r = search_result (st f ref_seq) (grouped_order ?keys)"
      and e: "checked_pairs effs = search_checked (st f ref_seq) (grouped_order ?keys)"
      by (simp_all add: st_def)
    have "r = Raised err"
      unfolding r using search_result_first(1)[OF ord fl] br by simp
    moreover have "checked_pairs effs = pre"
      unfolding e using search_result_first(2)[OF ord fl] br by simp
    ultimately show ?thesis
      unfolding path pdb_path_search[OF sf rd] sp by simp
  qed
  have d: "st f ref_seq x = Breaks KeyError"
    if "download_structure env (fst x) ?dir (force_rerun opts) = Inr pdb_file"
      "get_pdb_seqs env pdb_file = Inr chain_to_seq" "map_of chain_to_seq (snd x) = None"
    for f ref_seq x pdb_file chain_to_seq
    using that by (simp add: st_def candidate_status_def)
  have e: "structure_loop env opts seq_dir struct_dir bound (g # gs)
              = (new_gene out # gs, effects out, Some err)"
    if "raised out = Some err" for err gs
    using that by (simp add: out_def Let_def)
  show ?thesis
    using a b c d e by blast
qed

theorem candidate_exception_leaves_method_witness:
  "raised (set_representative_structure_gene demo_env demo_opts ''sequences'' ''structures'' False
             absent_chain) = Some KeyError
   \<and> structure_loop demo_env demo_opts ''sequences'' ''structures'' False
         [absent_chain, three_structures]
       = ([absent_chain, three_structures],
          effects (set_representative_structure_gene demo_env demo_opts ''sequences''
                     ''structures'' False absent_chain),
          Some KeyError)"
proof -
  let ?out = "set_representative_structure_gene demo_env demo_opts ''sequences'' ''structures''
                False absent_chain"
  have h1: "pdb (structure_ann absent_chain) \<noteq> []"
    and h2: "\<not> always_use_homology demo_opts \<or> homology (structure_ann absent_chain) = []"
    and sf: "seq_file (representative (sequence absent_chain)) = Some ''P00001.fasta''"
    and rd: "read_fasta demo_env
               (op_join (op_join ''sequences'' (gene_id absent_chain)) ''P00001.fasta'')
             = Inr ''MKV''"
    and ord: "grouped_order (map fst (pdb (structure_ann absent_chain)))
                = [] @ (''1aaa'', ''C'') # [(''2bbb'', ''A'')]"
    and dl: "download_structure demo_env (fst (''1aaa'', ''C''))
               (op_join ''structures'' (gene_id absent_chain)) (force_rerun demo_opts)
             = Inr ''1aaa.pdb''"
    and sq: "get_pdb_seqs demo_env ''1aaa.pdb'' = Inr [(''A'', ''MKX''), (''B'', ''MRV'')]"
    and ms: "map_of [(''A'', ''MKX''), (''B'', ''MRV'')] (snd (''1aaa'', ''C'')) = None"
    by (simp_all add: absent_chain_def default_structure_def demo_opts_def sequenced_def
        default_sequence_def empty_seq_record_def demo_env_def grouped_order_def unique_def)
  note inst = candidate_exception_leaves_method [OF h1 h2, of demo_env "''sequences''"
      "''structures''" False]
  from inst dl sq ms
  have br: "candidate_status demo_env demo_opts (split_dot_first ''P00001.fasta'') ''MKV''
              (op_join ''structures'' (gene_id absent_chain)) (''1aaa'', ''C'') = Breaks KeyError"
    by blast
  from inst sf rd ord br
  have r: "raised ?out = Some KeyError \<and> new_gene ?out = absent_chain"
    by (metis empty_iff list.set(1))
  with inst have "structure_loop demo_env demo_opts ''sequences'' ''structures'' False
         (absent_chain # [three_structures])
       = (new_gene ?out # [three_structures], effects ?out, Some KeyError)"
    by blast
  with r show ?thesis by simp
qed


subsection \<open>The homology branch\<close>

lemma homology_keys_all:
  "\<forall>m\<in>set hm. map_of (model_fields (snd m)) k \<noteq> None \<Longrightarrow>
   \<exists>keyed. homology_keys k hm = Inr keyed \<and> map fst keyed = map fst hm
     \<and> (\<forall>j<length hm. map_of (model_fields (snd (hm ! j))) k = Some (snd (keyed ! j)))"
proof (induction hm)
  case Nil
  then show ?case by simp
next
  case (Cons m hm)
  obtain x md where m: "m = (x, md)" by (cases m)
  from Cons.prems m obtain v where v: "map_of (model_fields md) k = Some v" by auto
  from Cons obtain keyed where kd: "homology_keys k hm = Inr keyed" "map fst keyed = map fst hm"
    "\<forall>j<length hm. map_of (model_fields (snd (hm ! j))) k = Some (snd (keyed ! j))" by auto
  have "homology_keys k (m # hm) = Inr ((x, v) # keyed)" using m v kd(1) by simp
  moreover have "\<forall>j<length (m # hm).
      map_of (model_fields (snd ((m # hm) ! j))) k = Some (snd (((x, v) # keyed) ! j))"
  proof (intro allI impI)
    fix j assume "j < length (m # hm)"
    then show "map_of (model_fields (snd ((m # hm) ! j))) k = Some (snd (((x, v) # keyed) ! j))"
      using kd(3) v m by (cases j) auto
  qed
  ultimately show ?case using kd(2) m by (intro exI[of _ "(x, v) # keyed"]) simp
qed

lemma top_modelI:
  assumes "i < length hm"
    and "\<forall>j<length hm. map_of (model_fields (snd (hm ! j))) k = Some (val j)"
    and "\<forall>j<length hm. val j \<le> val i"
    and "\<forall>j<i. val j < val i"
  shows "top_model k hm i"
proof -
  have vi: "map_of (model_fields (snd (hm ! i))) k = Some (val i)" using assms(1,2) by simp
  have "case map_of (model_fields (snd m)) k of None \<Rightarrow> False | Some w \<Rightarrow> w \<le> val i"
    if "m \<in> set hm" for m
  proof -
    from that obtain j where "j < length hm" "hm ! j = m" by (auto simp add: in_set_conv_nth)
    with assms(2,3) show ?thesis by auto
  qed
  moreover have "case map_of (model_fields (snd m)) k of None \<Rightarrow> False | Some w \<Rightarrow> w < val i"
    if "m \<in> set (take i hm)" for m
  proof -
    from that obtain j where "j < length (take i hm)" "take i hm ! j = m"
      by (auto simp add: in_set_conv_nth)
    then have "j < i" "j < length hm" "hm ! j = m" by simp_all
    with assms(2,4) show ?thesis by auto
  qed
  ultimately show ?thesis using assms(1) vi by (simp add: top_model_def)
qed

lemma homology_path_top:
  assumes ne: "homology (structure_ann g) \<noteq> []"
    and dist: "distinct (map fst (homology (structure_ann g)))"
    and wf: "\<forall>m\<in>set (homology (structure_ann g)).
               map_of (model_fields (snd m)) (sort_homology_by opts) \<noteq> None
               \<and> model_file (snd m) \<noteq> None
               \<and> map_of (model_fields (snd m)) ''seq_coverage'' \<noteq> None"
  shows "\<exists>i original cov.
           top_model (sort_homology_by opts) (homology (structure_ann g)) i
         \<and> model_file (snd (homology (structure_ann g) ! i)) = Some original
         \<and> map_of (model_fields (snd (homology (structure_ann g) ! i))) ''seq_coverage'' = Some cov
         \<and> homology_path env opts dir True effs g =
             \<lparr>new_gene = set_struct_rep
                \<lparr>structure_id = HomologyId (fst (homology (structure_ann g) ! i)),
                 seq_coverage = cov,
                 original_pdb_file = Some original,
                 clean_pdb_file = Some (basename (write_pdb env original None ''clean'' dir))\<rparr> g,
              chain_bound = True,
              effects = effs @ [Cleaned original None],
              raised = None\<rparr>"
proof -
  let ?hm = "homology (structure_ann g)"
  let ?k = "sort_homology_by opts"
  have "\<forall>m\<in>set ?hm. map_of (model_fields (snd m)) ?k \<noteq> None" using wf by simp
  from homology_keys_all[OF this] obtain keyed where
    kd: "homology_keys ?k ?hm = Inr keyed" and keys: "map fst keyed = map fst ?hm"
    and vals: "\<forall>j<length ?hm. map_of (model_fields (snd (?hm ! j))) ?k = Some (snd (keyed ! j))"
    by blast
  have len: "length keyed = length ?hm" using keys by (metis length_map)
  have kne: "keyed \<noteq> []" using ne len by auto
  from sorted_reverse_hd_first_max[OF kne, of snd] obtain i where i: "i < length keyed"
    and hd: "hd (sorted_reverse snd keyed) = keyed ! i"
    and mx: "\<forall>j<length keyed. snd (keyed ! j) \<le> snd (keyed ! i)"
    and fs: "\<forall>j<i. snd (keyed ! j) < snd (keyed ! i)" by blast
  have top: "top_model ?k ?hm i"
    using i len vals mx fs by (intro top_modelI[where val = "\<lambda>j. snd (keyed ! j)"]) auto
  obtain best rest where srt: "sorted_reverse snd keyed = best # rest"
    using kne by (cases "sorted_reverse snd keyed") (auto simp add: sorted_reverse_Nil_iff)
  have best: "fst best = fst (?hm ! i)"
    using hd srt keys i len by (metis list.sel(1) nth_map)
  have il: "i < length ?hm" using i len by simp
  have look: "map_of ?hm (fst (?hm ! i)) = Some (snd (?hm ! i))"
    using dist il by (simp add: nth_mem)
  have mem: "?hm ! i \<in> set ?hm" using il by simp
  from wf mem obtain original cov where
    orig: "model_file (snd (?hm ! i)) = Some original"
    and cov: "map_of (model_fields (snd (?hm ! i))) ''seq_coverage'' = Some cov" by blast
  have "homology_path env opts dir True effs g =
             \<lparr>new_gene = set_struct_rep
                \<lparr>structure_id = HomologyId (fst (?hm ! i)),
                 seq_coverage = cov,
                 original_pdb_file = Some original,
                 clean_pdb_file = Some (basename (write_pdb env original None ''clean'' dir))\<rparr> g,
              chain_bound = True,
              effects = effs @ [Cleaned original None],
              raised = None\<rparr>"
    using kd srt best look orig cov
    by (simp add: homology_path_def Let_def set_struct_rep_def)
  with top orig cov show ?thesis by blast
qed


text \<open>
  Claim C6. For a gene with PDB candidates and homology models, without
  \<open>always_use_homology\<close>: when every PDB candidate fails the quality check,
  the homology branch runs and the representative becomes the model that the
  descending sort on \<open>sort_homology_by\<close> ranks top (the first of maximal
  value), with its coverage, its model file and the cleaned file. The quality
  check was run on the PDB candidates only; no check is made on the model.
  The homology dictionary is well formed: distinct ids, and every model has
  the sort key, \<open>'model_file'\<close> and \<open>'seq_coverage'\<close>.
\<close>

theorem fallback_to_top_homology:
  assumes "\<not> always_use_homology opts"
    and "pdb (structure_ann g) \<noteq> []"
    and "homology (structure_ann g) \<noteq> []"
    and "seq_file (representative (sequence g)) = Some f"
    and "read_fasta env (op_join (op_join seq_dir (gene_id g)) f) = Inr ref_seq"
    and "\<forall>x\<in>set (grouped_order (map fst (pdb (structure_ann g)))).
            candidate_status env opts (split_dot_first f) ref_seq
              (op_join struct_dir (gene_id g)) x = Fails"
    and "distinct (map fst (homology (structure_ann g)))"
    and "\<forall>m\<in>set (homology (structure_ann g)).
            map_of (model_fields (snd m)) (sort_homology_by opts) \<noteq> None
            \<and> model_file (snd m) \<noteq> None
            \<and> map_of (model_fields (snd m)) ''seq_coverage'' \<noteq> None"
  shows "\<exists>i original cov effs.
           top_model (sort_homology_by opts) (homology (structure_ann g)) i
         \<and> model_file (snd (homology (structure_ann g) ! i)) = Some original
         \<and> map_of (model_fields (snd (homology (structure_ann g) ! i))) ''seq_coverage'' = Some cov
         \<and> checked_pairs effs = grouped_order (map fst (pdb (structure_ann g)))
         \<and> set_representative_structure_gene env opts seq_dir struct_dir bound g =
             \<lparr>new_gene = set_struct_rep
                \<lparr>structure_id = HomologyId (fst (homology (structure_ann g) ! i)),
                 seq_coverage = cov,
                 original_pdb_file = Some original,
                 clean_pdb_file = Some (basename
                   (write_pdb env original None ''clean'' (op_join struct_dir (gene_id g))))\<rparr> g,
              chain_bound = True,
              effects = effs @ [Cleaned original None],
              raised = None\<rparr>"
proof -
  let ?dir = "op_join struct_dir (gene_id g)"
  let ?keys = "map fst (pdb (structure_ann g))"
  let ?st = "candidate_status env opts (split_dot_first f) ref_seq ?dir"
  obtain r effs where sp:
    "search_pdbs env opts (split_dot_first f) ref_seq ?dir (convert_to_dict ?keys) = (r, effs)"
    by (cases "search_pdbs env opts (split_dot_first f) ref_seq ?dir (convert_to_dict ?keys)")
  from search_on_keys[of env opts "split_dot_first f" ref_seq ?dir ?keys] sp
  have r: "r = search_result ?st (grouped_order ?keys)"
    and e: "checked_pairs effs = search_checked ?st (grouped_order ?keys)" by simp_all
  have r': "r = Exhausted" unfolding r by (rule search_all_fail(1)[OF assms(6)])
  have e': "checked_pairs effs = grouped_order ?keys"
    unfolding e by (rule search_all_fail(2)[OF assms(6)])
  have path: "set_representative_structure_gene env opts seq_dir struct_dir bound g
      = homology_path env opts ?dir True effs g"
    using assms(1,2,3)
    unfolding pdb_path_taken[OF assms(2) disjI1[OF assms(1)]] pdb_path_search[OF assms(4,5)] sp r'
    by simp
  from homology_path_top[OF assms(3,7,8), of env ?dir effs] e' path
  show ?thesis by metis
qed

theorem fallback_to_top_homology_witness:
  "top_model ''seq_coverage'' (homology (structure_ann failing_pdbs_and_models)) 1
   \<and> structure_id (struct_rep (structure_ann (new_gene
        (set_representative_structure_gene demo_env demo_opts ''sequences'' ''structures'' False
           failing_pdbs_and_models)))) = HomologyId ''m2''
   \<and> checked_pairs (effects
        (set_representative_structure_gene demo_env demo_opts ''sequences'' ''structures'' False
           failing_pdbs_and_models)) = [(''1aaa'', ''A''), (''1aaa'', ''B'')]
   \<and> (\<exists>i original cov effs.
         top_model (sort_homology_by demo_opts) (homology (structure_ann failing_pdbs_and_models)) i
         \<and> model_file (snd (homology (structure_ann failing_pdbs_and_models) ! i)) = Some original
         \<and> map_of (model_fields (snd (homology (structure_ann failing_pdbs_and_models) ! i)))
              ''seq_coverage'' = Some cov
         \<and> checked_pairs effs = grouped_order (map fst (pdb (structure_ann failing_pdbs_and_models)))
         \<and> set_representative_structure_gene demo_env demo_opts ''sequences'' ''structures'' False
              failing_pdbs_and_models =
             \<lparr>new_gene = set_struct_rep
                \<lparr>structure_id = HomologyId (fst (homology (structure_ann failing_pdbs_and_models) ! i)),
                 seq_coverage = cov,
                 original_pdb_file = Some original,
                 clean_pdb_file = Some (basename
                   (write_pdb demo_env original None ''clean''
                      (op_join ''structures'' (gene_id failing_pdbs_and_models))))\<rparr>
                failing_pdbs_and_models,
              chain_bound = True,
              effects = effs @ [Cleaned original None],
              raised = None\<rparr>)"
proof -
  have h1: "\<not> always_use_homology demo_opts"
    and h2: "pdb (structure_ann failing_pdbs_and_models) \<noteq> []"
    and h3: "homology (structure_ann failing_pdbs_and_models) \<noteq> []"
    and h4: "seq_file (representative (sequence failing_pdbs_and_models)) = Some ''P00001.fasta''"
    and h5: "read_fasta demo_env
               (op_join (op_join ''sequences'' (gene_id failing_pdbs_and_models)) ''P00001.fasta'')
             = Inr ''MKV''"
    and h7: "distinct (map fst (homology (structure_ann failing_pdbs_and_models)))"
    by (simp_all add: failing_pdbs_and_models_def default_structure_def demo_opts_def
        sequenced_def default_sequence_def empty_seq_record_def demo_env_def)
  have ord: "grouped_order (map fst (pdb (structure_ann failing_pdbs_and_models)))
               = [(''1aaa'', ''A''), (''1aaa'', ''B'')]"
    by (simp add: failing_pdbs_and_models_def default_structure_def grouped_order_def unique_def)
  have h6: "\<forall>x\<in>set (grouped_order (map fst (pdb (structure_ann failing_pdbs_and_models)))).
            candidate_status demo_env demo_opts (split_dot_first ''P00001.fasta'') ''MKV''
              (op_join ''structures'' (gene_id failing_pdbs_and_models)) x = Fails"
    unfolding ord by (simp add: candidate_status_def demo_env_def demo_opts_def)
  have h8: "\<forall>m\<in>set (homology (structure_ann failing_pdbs_and_models)).
            map_of (model_fields (snd m)) (sort_homology_by demo_opts) \<noteq> None
            \<and> model_file (snd m) \<noteq> None
            \<and> map_of (model_fields (snd m)) ''seq_coverage'' \<noteq> None"
    by (simp add: failing_pdbs_and_models_def default_structure_def demo_opts_def model_def
        del: not_None_eq)
  have top: "top_model ''seq_coverage'' (homology (structure_ann failing_pdbs_and_models)) 1"
    by (simp add: top_model_def failing_pdbs_and_models_def default_structure_def model_def)
  have ev: "structure_id (struct_rep (structure_ann (new_gene
        (set_representative_structure_gene demo_env demo_opts ''sequences'' ''structures'' False
           failing_pdbs_and_models)))) = HomologyId ''m2''
     \<and> checked_pairs (effects
        (set_representative_structure_gene demo_env demo_opts ''sequences'' ''structures'' False
           failing_pdbs_and_models)) = [(''1aaa'', ''A''), (''1aaa'', ''B'')]"
    by (simp add: set_representative_structure_gene_def select_source_def pdb_path_def Let_def
      failing_pdbs_and_models_def default_structure_def sequenced_def default_sequence_def
      empty_seq_record_def demo_env_def demo_opts_def convert_to_dict_def op_join_def
      split_dot_first_def homology_path_def sorted_reverse_def model_def set_struct_rep_def)
  show ?thesis
    using fallback_to_top_homology [OF h1 h2 h3 h4 h5 h6 h7 h8, of False] top ev
    by blast
qed

text \<open>
  The homology branch reads the local variable \<open>chain\<close>, which only the chain
  loop of the PDB branch binds. For a gene that takes the homology branch
  before any gene went through that loop, the method ends with
  \<open>UnboundLocalError\<close>, after three keys of the representative were written
  and before the cleaned file is.
\<close>

lemma homology_branch_reads_unbound_chain:
  "raised (set_representative_structure_gene demo_env (demo_opts\<lparr>always_use_homology := True\<rparr>)
             ''sequences'' ''structures'' False failing_pdbs_and_models)
     = Some UnboundLocalError
   \<and> struct_rep (structure_ann (new_gene
        (set_representative_structure_gene demo_env (demo_opts\<lparr>always_use_homology := True\<rparr>)
           ''sequences'' ''structures'' False failing_pdbs_and_models)))
     = \<lparr>structure_id = HomologyId ''m2'', seq_coverage = 95 / 100,
        original_pdb_file = Some ''/models/m2.pdb'', clean_pdb_file = None\<rparr>"
  by (simp add: set_representative_structure_gene_def select_source_def Let_def
      failing_pdbs_and_models_def default_structure_def demo_opts_def
      homology_path_def sorted_reverse_def model_def set_struct_rep_def)

section \<open>Properties of the structure ingestors\<close>

subsection \<open>Ordered dictionaries\<close>

lemma odict_set_absent: "k \<notin> set (map fst d) \<Longrightarrow> odict_set k v d = d @ [(k, v)]"
  by (induction d) auto

lemma keys_odict_set:
  "map fst (odict_set k v d) = (if k \<in> set (map fst d) then map fst d else map fst d @ [k])"
  by (induction d) (force split: if_splits)+

lemma distinct_odict_set:
  "distinct (map fst d) \<Longrightarrow> distinct (map fst (odict_set k v d))"
  by (simp add: keys_odict_set)

lemma odict_update_Cons:
  "odict_update d (kv # other) = odict_update (odict_set (fst kv) (snd kv) d) other"
  by (simp add: odict_update_def)

lemma odict_update_disjoint:
  "distinct (map fst other) \<Longrightarrow> set (map fst other) \<inter> set (map fst d) = {} \<Longrightarrow>
   odict_update d other = d @ other"
proof (induction other arbitrary: d)
  case Nil
  then show ?case by (simp add: odict_update_def)
next
  case (Cons kv other)
  have absent: "fst kv \<notin> set (map fst d)" using Cons.prems(2) by auto
  have step: "odict_set (fst kv) (snd kv) d = d @ [kv]"
    using odict_set_absent[OF absent, of "snd kv"] by simp
  have "set (map fst other) \<inter> set (map fst (d @ [kv])) = {}"
    using Cons.prems by auto
  with Cons.IH[of "d @ [kv]"] Cons.prems(1) show ?case
    by (simp add: odict_update_Cons step)
qed

lemma distinct_rank_structures:
  "distinct (map fst to_add) \<Longrightarrow> distinct (map fst (rank_structures srv u n bs to_add))"
  by (induction bs arbitrary: n to_add) (simp_all add: Let_def distinct_odict_set)

lemma distinct_foldl_odict_set:
  "distinct (map fst acc) \<Longrightarrow> distinct (map fst (foldl (\<lambda>acc c. odict_set (kf c) (vf c) acc) acc cs))"
  by (induction cs arbitrary: acc) (simp_all add: distinct_odict_set)

lemma distinct_blast_chains:
  "distinct (map fst to_add) \<Longrightarrow> distinct (map fst (blast_chains srv r to_add))"
  unfolding blast_chains_def Let_def by (rule distinct_foldl_odict_set)

lemma distinct_blast_hits:
  "distinct (map fst acc) \<Longrightarrow> distinct (map fst (foldl (\<lambda>acc r. blast_chains srv r acc) acc rs))"
  by (induction rs arbitrary: acc) (simp_all add: distinct_blast_chains)

lemma distinct_map_filter_keys:
  "distinct (map fst xs) \<Longrightarrow> distinct (map fst (filter P xs))"
  by (induction xs) auto

lemma merge_blast_append:
  assumes "distinct (map fst to_add)"
  shows "merge_blast to_add current
           = current @ filter (\<lambda>kv. fst kv \<notin> set (map fst current)) to_add"
proof (cases "current = []")
  case True
  then show ?thesis using odict_update_disjoint[OF assms, of "[]"] by (simp add: merge_blast_def)
next
  case False
  let ?new = "filter (\<lambda>kv. fst kv \<notin> set (map fst current)) to_add"
  have "distinct (map fst ?new)" using assms by (rule distinct_map_filter_keys)
  moreover have "set (map fst ?new) \<inter> set (map fst current) = {}" by force
  ultimately show ?thesis using False by (simp add: merge_blast_def odict_update_disjoint)
qed

lemma merge_ranked_append:
  assumes "distinct (map fst current)"
  shows "merge_ranked to_add current
           = to_add @ filter (\<lambda>kv. fst kv \<notin> set (map fst to_add)) current"
proof (cases "current = []")
  case True
  then show ?thesis by (simp add: merge_ranked_def)
next
  case False
  let ?old = "filter (\<lambda>kv. fst kv \<notin> set (map fst to_add)) current"
  have "distinct (map fst ?old)" using assms by (rule distinct_map_filter_keys)
  moreover have "set (map fst ?old) \<inter> set (map fst to_add) = {}" by force
  ultimately show ?thesis using False by (simp add: merge_ranked_def odict_update_disjoint)
qed


text \<open>
  Claim C5, amended. For a well-formed \<open>pdb\<close> mapping (distinct keys):
  \<open>blast_seqs_to_pdb\<close> keeps the existing mapping as it is and appends only
  hits with new keys, so a hit whose key exists is dropped and the existing
  entry is unchanged; \<open>map_uniprot_to_pdb\<close> puts the newly ranked entries
  first and keeps of the existing entries only those with other keys, so an
  existing entry whose key is ranked again is replaced by the new one.
\<close>

theorem existing_key_on_ingestion:
  assumes "distinct (map fst (pdb (structure_ann g)))"
  shows "(\<forall>g'. blast_seqs_to_pdb_gene srv seq_dir all_genes g = Inr g' \<longrightarrow>
            (\<exists>added. pdb (structure_ann g') = pdb (structure_ann g) @ added
               \<and> set (map fst added) \<inter> set (map fst (pdb (structure_ann g))) = {})
            \<and> (\<forall>k\<in>set (map fst (pdb (structure_ann g))).
                  map_of (pdb (structure_ann g')) k = map_of (pdb (structure_ann g)) k))
       \<and> (\<forall>u. uniprot_acc (representative (sequence g)) = Some u \<and> u \<noteq> []
               \<and> best_structures srv u (op_join seq_dir (gene_id g)) \<noteq> [] \<longrightarrow>
            (let to_add = rank_structures srv u 1
                            (best_structures srv u (op_join seq_dir (gene_id g))) []
             in pdb (structure_ann (map_uniprot_to_pdb_gene srv seq_dir g))
                  = to_add @ filter (\<lambda>kv. fst kv \<notin> set (map fst to_add)) (pdb (structure_ann g))
                \<and> (\<forall>k\<in>set (map fst to_add).
                      map_of (pdb (structure_ann (map_uniprot_to_pdb_gene srv seq_dir g))) k
                        = map_of to_add k)))"
proof -
  let ?cur = "pdb (structure_ann g)"
  have blast: "(\<exists>added. pdb (structure_ann g') = ?cur @ added
               \<and> set (map fst added) \<inter> set (map fst ?cur) = {})
            \<and> (\<forall>k\<in>set (map fst ?cur). map_of (pdb (structure_ann g')) k = map_of ?cur k)"
    if res: "blast_seqs_to_pdb_gene srv seq_dir all_genes g = Inr g'" for g'
  proof -
    have "\<exists>added. pdb (structure_ann g') = ?cur @ added
               \<and> set (map fst added) \<inter> set (map fst ?cur) = {}"
    proof (cases "g' = g")
      case True
      then show ?thesis by (intro exI[of _ "[]"]) simp
    next
      case False
      with res obtain rs where
        g': "g' = g\<lparr>structure_ann := (structure_ann g)\<lparr>pdb :=
                     merge_blast (foldl (\<lambda>acc r. blast_chains srv r acc) [] rs) ?cur\<rparr>\<rparr>"
        by (auto simp add: blast_seqs_to_pdb_gene_def Let_def
            split: option.splits if_splits sum.splits)
      let ?to_add = "foldl (\<lambda>acc r. blast_chains srv r acc) [] rs"
      have "distinct (map fst ?to_add)" by (rule distinct_blast_hits) simp
      from merge_blast_append[OF this, of ?cur] g'
      have "pdb (structure_ann g')
              = ?cur @ filter (\<lambda>kv. fst kv \<notin> set (map fst ?cur)) ?to_add" by simp
      moreover have "set (map fst (filter (\<lambda>kv. fst kv \<notin> set (map fst ?cur)) ?to_add))
                       \<inter> set (map fst ?cur) = {}" by force
      ultimately show ?thesis by blast
    qed
    then obtain added where a: "pdb (structure_ann g') = ?cur @ added" by blast
    have "map_of (pdb (structure_ann g')) k = map_of ?cur k" if "k \<in> set (map fst ?cur)" for k
    proof -
      from that obtain v where "map_of ?cur k = Some v"
        by (metis map_of_eq_None_iff not_Some_eq set_map)
      then show ?thesis unfolding a by (simp add: map_add_def)
    qed
    with \<open>\<exists>added. _\<close> show ?thesis by blast
  qed
  have ranked: "(let to_add = rank_structures srv u 1
                            (best_structures srv u (op_join seq_dir (gene_id g))) []
             in pdb (structure_ann (map_uniprot_to_pdb_gene srv seq_dir g))
                  = to_add @ filter (\<lambda>kv. fst kv \<notin> set (map fst to_add)) ?cur
                \<and> (\<forall>k\<in>set (map fst to_add).
                      map_of (pdb (structure_ann (map_uniprot_to_pdb_gene srv seq_dir g))) k
                        = map_of to_add k))"
    if u: "uniprot_acc (representative (sequence g)) = Some u" "u \<noteq> []"
      "best_structures srv u (op_join seq_dir (gene_id g)) \<noteq> []" for u
  proof -
    let ?to_add = "rank_structures srv u 1 (best_structures srv u (op_join seq_dir (gene_id g))) []"
    have eq: "pdb (structure_ann (map_uniprot_to_pdb_gene srv seq_dir g))
            = ?to_add @ filter (\<lambda>kv. fst kv \<notin> set (map fst ?to_add)) ?cur"
      using u merge_ranked_append[OF assms, of ?to_add]
      by (simp add: map_uniprot_to_pdb_gene_def Let_def)
    have "map_of (pdb (structure_ann (map_uniprot_to_pdb_gene srv seq_dir g))) k = map_of ?to_add k"
      if "k \<in> set (map fst ?to_add)" for k
    proof -
      from that obtain v where "map_of ?to_add k = Some v"
        by (metis map_of_eq_None_iff not_Some_eq set_map)
      then show ?thesis unfolding eq by (simp add: map_add_def)
    qed
    with eq show ?thesis by (simp add: Let_def)
  qed
  show ?thesis using blast ranked by blast
qed

theorem existing_key_on_ingestion_witness:
  "(\<exists>g'. blast_seqs_to_pdb_gene demo_services ''sequences'' True with_blast_hit = Inr g'
      \<and> map fst (pdb (structure_ann g')) = [(''1abc'', ''A''), (''1abc'', ''B'')]
      \<and> map_of (pdb (structure_ann g')) (''1abc'', ''A'') = Some blast_hit_1abc)
   \<and> map fst (pdb (structure_ann (map_uniprot_to_pdb_gene demo_services ''sequences''
          with_blast_hit))) = [(''1abc'', ''A'')]"
proof -
  have h: "distinct (map fst (pdb (structure_ann with_blast_hit)))"
    by (simp add: with_blast_hit_def default_structure_def)
  have cur: "pdb (structure_ann with_blast_hit) = [((''1abc'', ''A''), blast_hit_1abc)]"
    by (simp add: with_blast_hit_def default_structure_def)
  have "\<exists>g'. blast_seqs_to_pdb_gene demo_services ''sequences'' True with_blast_hit = Inr g'
      \<and> map fst (pdb (structure_ann g')) = [(''1abc'', ''A''), (''1abc'', ''B'')]"
    by (simp add: blast_seqs_to_pdb_gene_def with_blast_hit_def sequenced_def
      default_sequence_def empty_seq_record_def default_structure_def demo_services_def
      merge_blast_def odict_update_def blast_chains_def lower_def upper_def lower_char_def
      upper_char_def Let_def)
  then obtain g' where
    g': "blast_seqs_to_pdb_gene demo_services ''sequences'' True with_blast_hit = Inr g'"
    and keys: "map fst (pdb (structure_ann g')) = [(''1abc'', ''A''), (''1abc'', ''B'')]"
    by (elim exE conjE)
  note inst = existing_key_on_ingestion [OF h, of demo_services "''sequences''" True]
  from inst g' have "\<forall>k\<in>set (map fst (pdb (structure_ann with_blast_hit))).
      map_of (pdb (structure_ann g')) k = map_of (pdb (structure_ann with_blast_hit)) k"
    by blast
  then have kept: "map_of (pdb (structure_ann g')) (''1abc'', ''A'') = Some blast_hit_1abc"
    by (simp add: cur)
  have "map fst (pdb (structure_ann (map_uniprot_to_pdb_gene demo_services ''sequences''
          with_blast_hit))) = [(''1abc'', ''A'')]"
    by (simp add: map_uniprot_to_pdb_gene_def with_blast_hit_def sequenced_def
      default_sequence_def empty_seq_record_def default_structure_def demo_services_def
      merge_ranked_def odict_update_def lower_def upper_def lower_char_def upper_char_def
      Let_def)
  with g' keys kept show ?thesis by (intro conjI exI[of _ g']) assumption+
qed

text \<open>
  Claim C5 as stated fails for \<open>map_uniprot_to_pdb\<close>. The gene has the entry
  of a BLAST hit under \<open>('1abc', 'A')\<close>; the ranking service returns the same
  pair; after the call the key holds the ranked entry, not the existing one.
\<close>

theorem ranked_ingestion_replaces_existing:
  "map_of (pdb (structure_ann with_blast_hit)) (''1abc'', ''A'') = Some blast_hit_1abc
   \<and> map_of (pdb (structure_ann (map_uniprot_to_pdb_gene demo_services ''sequences''
                 with_blast_hit))) (''1abc'', ''A'')
       = Some (RankedEntry
           \<lparr>rk_pdb_id = ''1abc'', rk_pdb_chain_id = ''A'', rk_uniprot_acc = ''P00001'',
            rk_experimental_method = ''X-ray diffraction'', rk_resolution = 21 / 10,
            rk_seq_coverage = 1, rk_release_date = ''1999-05-05'', rk_taxonomy_id = 562,
            rk_pdb_start = 1, rk_pdb_end = 300, rk_unp_start = 1, rk_unp_end = 300,
            rk_rank = 1\<rparr>)
   \<and> map_of (pdb (structure_ann (map_uniprot_to_pdb_gene demo_services ''sequences''
                 with_blast_hit))) (''1abc'', ''A'')
       \<noteq> map_of (pdb (structure_ann with_blast_hit)) (''1abc'', ''A'')"
  by (simp add: map_uniprot_to_pdb_gene_def with_blast_hit_def sequenced_def
      default_sequence_def empty_seq_record_def default_structure_def demo_services_def
      merge_ranked_def odict_update_def lower_def upper_def lower_char_def upper_char_def
      blast_hit_1abc_def Let_def)


section \<open>Properties of \<open>manual_homology_models\<close>\<close>

lemma manual_models_of_gene_append:
  "manual_models_of_gene dir pre st = (st', None) \<Longrightarrow>
   manual_models_of_gene dir (pre @ rest) st = manual_models_of_gene dir rest st'"
proof (induction dir pre st rule: manual_models_of_gene.induct)
  case (1 struct_dir st)
  then show ?case by simp
next
  case (2 struct_dir hid hdict rest' g fs)
  then show ?case
    by (auto simp add: Let_def split: option.splits if_splits)
qed

lemma manual_homology_models_append:
  "manual_homology_models dir input gs fs = ((gs', fs'), None) \<Longrightarrow>
   manual_homology_models dir input (gs @ rest) fs =
     (case manual_homology_models dir input rest fs' of
        ((rest', fs''), res) \<Rightarrow> ((gs' @ rest', fs''), res))"
proof (induction gs arbitrary: fs gs')
  case Nil
  then show ?case by (simp split: prod.splits)
next
  case (Cons g gs)
  show ?case
  proof (cases "map_of input (gene_id g)")
    case None
    obtain gs1 fs1 r1 where r: "manual_homology_models dir input gs fs = ((gs1, fs1), r1)"
      by (metis prod.exhaust)
    with Cons.prems None have "r1 = None" "gs' = g # gs1" "fs1 = fs'" by simp_all
    with Cons.IH[of fs gs1] r None show ?thesis by (simp split: prod.splits)
  next
    case (Some models)
    obtain g1 fsa ra where m: "manual_models_of_gene dir models (g, fs) = ((g1, fsa), ra)"
      by (metis prod.exhaust)
    with Cons.prems Some have ra: "ra = None" by (cases ra) simp_all
    obtain gs1 fs1 r1 where r: "manual_homology_models dir input gs fsa = ((gs1, fs1), r1)"
      by (metis prod.exhaust)
    with Cons.prems Some m ra have "r1 = None" "gs' = g1 # gs1" "fs1 = fs'" by simp_all
    with Cons.IH[of fsa gs1] r Some m ra show ?thesis by (simp split: prod.splits)
  qed
qed


text \<open>
  Claim C9. When the genes \<open>before\<close> and the entries \<open>pre\<close> of gene \<open>g\<close> were
  handled without exception and the next entry \<open>(hid, hdict)\<close> of \<open>g\<close> has no
  \<open>'model_file'\<close>, the method ends with \<open>KeyError\<close> in exactly the state that
  \<open>before\<close> and \<open>pre\<close> left: no directory was made and no file copied for
  that entry, that entry was not stored, and neither the entries \<open>post\<close> nor
  the genes \<open>after\<close> were visited.
\<close>

theorem missing_model_file_raises_first:
  assumes "manual_homology_models struct_dir input_dict before fs = ((before', fs1), None)"
    and "map_of input_dict (gene_id g) = Some (pre @ (hid, hdict) # post)"
    and "manual_models_of_gene struct_dir pre (g, fs1) = ((g', fs2), None)"
    and "model_file hdict = None"
  shows "manual_homology_models struct_dir input_dict (before @ g # after) fs
           = ((before' @ g' # after, fs2), Some KeyError)"
proof -
  have "manual_models_of_gene struct_dir (pre @ (hid, hdict) # post) (g, fs1)
          = ((g', fs2), Some KeyError)"
    using manual_models_of_gene_append[OF assms(3)] assms(4) by simp
  then have "manual_homology_models struct_dir input_dict (g # after) fs1
          = ((g' # after, fs2), Some KeyError)"
    using assms(2) by simp
  then show ?thesis
    using manual_homology_models_append[OF assms(1), of "g # after"] by simp
qed

theorem missing_model_file_raises_first_witness:
  "manual_homology_models ''structures'' manual_input [kegg_only_gene, failing_pdbs_and_models]
     disk
   = (([kegg_only_gene,
        failing_pdbs_and_models\<lparr>structure_ann := (structure_ann failing_pdbs_and_models)
          \<lparr>homology := homology (structure_ann failing_pdbs_and_models)
              @ [(''good'', model ''/in/good.pdb'' 1 0)]\<rparr>\<rparr>],
       \<lparr>directories = [''structures'', ''structures/b0004''],
        files = [''structures/b0004/good.pdb'', ''/in/good.pdb'', ''/in/late.pdb'']\<rparr>),
      Some KeyError)"
proof -
  have h1: "manual_homology_models ''structures'' manual_input [kegg_only_gene] disk
              = (([kegg_only_gene], disk), None)"
    by (simp add: manual_input_def kegg_only_gene_def)
  have h2: "map_of manual_input (gene_id failing_pdbs_and_models)
              = Some ([(''good'', model ''/in/good.pdb'' 1 0)]
                      @ (''bad'', \<lparr>model_file = None, model_fields = [(''seq_coverage'', 1)]\<rparr>)
                      # [(''late'', model ''/in/late.pdb'' 1 0)])"
    by (simp add: manual_input_def failing_pdbs_and_models_def)
  have h3: "manual_models_of_gene ''structures'' [(''good'', model ''/in/good.pdb'' 1 0)]
              (failing_pdbs_and_models, disk)
            = ((failing_pdbs_and_models\<lparr>structure_ann := (structure_ann failing_pdbs_and_models)
                  \<lparr>homology := homology (structure_ann failing_pdbs_and_models)
                      @ [(''good'', model ''/in/good.pdb'' 1 0)]\<rparr>\<rparr>,
                \<lparr>directories = [''structures'', ''structures/b0004''],
                 files = [''structures/b0004/good.pdb'', ''/in/good.pdb'', ''/in/late.pdb'']\<rparr>),
               None)"
    by (simp add: failing_pdbs_and_models_def default_structure_def disk_def model_def
        op_join_def basename_def Let_def)
  have h4: "model_file \<lparr>model_file = None, model_fields = [(''seq_coverage'', 1::rat)]\<rparr> = None"
    by simp
  show ?thesis
    using missing_model_file_raises_first [OF h1 h2 h3 h4, of "[]"] by simp
qed

section \<open>Properties of the gene list\<close>

lemma new_gene_by_id_defaults:
  "new_gene_by_id x = \<lparr>gene_id = x, sequence = default_sequence, structure_ann = default_structure\<rparr>"
  by (simp add: new_gene_by_id_def default_sequence_def default_structure_def empty_seq_record_def)

lemma gene_id_new_gene: "map gene_id (map new_gene_by_id xs) = xs"
  by (induction xs) (simp_all add: new_gene_by_id_def)

lemma dictlist_union_snoc:
  "dictlist_union gs (new @ [g]) =
     (if gene_id g \<in> set (map gene_id (dictlist_union gs new)) then dictlist_union gs new
      else dictlist_union gs new @ [g])"
  by (simp add: dictlist_union_def)

lemma dictlist_union_props:
  "distinct (map gene_id gs) \<Longrightarrow>
   (\<exists>added. dictlist_union gs new = gs @ added
      \<and> set added \<subseteq> set new
      \<and> distinct (map gene_id (gs @ added))
      \<and> set (map gene_id (gs @ added)) = set (map gene_id gs) \<union> set (map gene_id new))"
proof (induction new rule: rev_induct)
  case Nil
  then show ?case by (simp add: dictlist_union_def)
next
  case (snoc g new)
  from snoc obtain added where a: "dictlist_union gs new = gs @ added" "set added \<subseteq> set new"
    "distinct (map gene_id (gs @ added))"
    "set (map gene_id (gs @ added)) = set (map gene_id gs) \<union> set (map gene_id new)" by blast
  show ?case
  proof (cases "gene_id g \<in> set (map gene_id (gs @ added))")
    case True
    then have "dictlist_union gs (new @ [g]) = gs @ added"
      using a(1) by (simp add: dictlist_union_snoc)
    moreover have "set (map gene_id (gs @ added))
        = set (map gene_id gs) \<union> set (map gene_id (new @ [g]))"
      using a(4) True by auto
    ultimately show ?thesis using a(2,3) by (intro exI[of _ added]) auto
  next
    case False
    then have "dictlist_union gs (new @ [g]) = gs @ (added @ [g])"
      using a(1) by (simp add: dictlist_union_snoc)
    moreover have "distinct (map gene_id (gs @ (added @ [g])))"
      using a(3) False by auto
    moreover have "set (map gene_id (gs @ (added @ [g])))
        = set (map gene_id gs) \<union> set (map gene_id (new @ [g]))"
      using a(4) by auto
    ultimately show ?thesis using a(2) by (intro exI[of _ "added @ [g]"]) auto
  qed
qed

lemma fresh_sequence_unmapped:
  "set_representative_sequence_gene x default_sequence = (default_sequence, Inr (row_unmapped x))"
  by (simp add: set_representative_sequence_gene_def default_sequence_def empty_seq_record_def)

lemma fresh_structure_skipped:
  "structure_ann g = default_structure \<Longrightarrow>
   set_representative_structure_gene env opts seq_dir struct_dir bound g
     = \<lparr>new_gene = g, chain_bound = bound, effects = [], raised = None\<rparr>"
  by (simp add: set_representative_structure_gene_def default_structure_def Let_def)

text \<open>
  Claim C10. For a list of gene ids given to the setter of \<open>genes\<close> or to
  \<open>add_genes_by_id\<close>, with \<open>as_list\<close> any listing of the distinct ids: the
  setter makes exactly one gene for each distinct id; \<open>add_genes_by_id\<close> keeps
  the genes of the project and appends one gene for each distinct id that the
  project does not have; every gene made has the default annotations (no
  UniProt entry, representative sequence of length 0 without PDBs, no
  homology model, empty \<open>pdb\<close> mapping, representative \<open>structure_id\<close> \<open>None\<close>).
  The sequence resolver does not take such a gene as already set (it writes
  the row of an unmapped gene), and the structure resolver, which has no
  test for an existing representative, skips it for want of structures.
\<close>

theorem new_genes_distinct_with_defaults:
  assumes "distinct (as_list ids) \<and> set (as_list ids) = set ids"
    and "distinct (map gene_id gs)"
  shows "distinct (map gene_id (set_genes as_list (GeneIds ids)))
       \<and> set (map gene_id (set_genes as_list (GeneIds ids))) = set ids
       \<and> length (set_genes as_list (GeneIds ids)) = card (set ids)
       \<and> (\<forall>g\<in>set (set_genes as_list (GeneIds ids)).
             sequence g = default_sequence \<and> structure_ann g = default_structure)
       \<and> (\<exists>added. add_genes_by_id as_list ids gs = gs @ added
             \<and> distinct (map gene_id (gs @ added))
             \<and> set (map gene_id (gs @ added)) = set (map gene_id gs) \<union> set ids
             \<and> (\<forall>g\<in>set added.
                   sequence g = default_sequence \<and> structure_ann g = default_structure))
       \<and> uniprot default_sequence = []
       \<and> seq_len (representative default_sequence) = 0
       \<and> pdbs (representative default_sequence) = []
       \<and> homology default_structure = []
       \<and> pdb default_structure = []
       \<and> structure_id (struct_rep default_structure) = NoStructureId
       \<and> (\<forall>x. set_representative_sequence_gene x default_sequence
                 = (default_sequence, Inr (row_unmapped x)))
       \<and> (\<forall>g env opts seq_dir struct_dir bound. structure_ann g = default_structure \<longrightarrow>
             set_representative_structure_gene env opts seq_dir struct_dir bound g
               = \<lparr>new_gene = g, chain_bound = bound, effects = [], raised = None\<rparr>)"
proof -
  let ?new = "map new_gene_by_id (as_list ids)"
  have ids: "map gene_id ?new = as_list ids" by (rule gene_id_new_gene)
  have set_genes: "set_genes as_list (GeneIds ids) = ?new" by (simp add: set_genes_def)
  have d: "distinct (map gene_id ?new)" "set (map gene_id ?new) = set ids"
    unfolding ids using assms(1) by simp_all
  have len: "length ?new = card (set ids)"
    using assms(1) by (metis distinct_card length_map)
  have defaults: "sequence g = default_sequence \<and> structure_ann g = default_structure"
    if "g \<in> set ?new" for g
    using that by (auto simp add: new_gene_by_id_defaults)
  from dictlist_union_props[OF assms(2), of ?new] obtain added where
    a: "dictlist_union gs ?new = gs @ added" "set added \<subseteq> set ?new"
    "distinct (map gene_id (gs @ added))"
    "set (map gene_id (gs @ added)) = set (map gene_id gs) \<union> set (map gene_id ?new)" by blast
  have add: "\<exists>added. add_genes_by_id as_list ids gs = gs @ added
             \<and> distinct (map gene_id (gs @ added))
             \<and> set (map gene_id (gs @ added)) = set (map gene_id gs) \<union> set ids
             \<and> (\<forall>g\<in>set added.
                   sequence g = default_sequence \<and> structure_ann g = default_structure)"
  proof (intro exI[of _ added] conjI ballI)
    show "add_genes_by_id as_list ids gs = gs @ added" using a(1) by (simp add: add_genes_by_id_def)
    show "distinct (map gene_id (gs @ added))" by (rule a(3))
    show "set (map gene_id (gs @ added)) = set (map gene_id gs) \<union> set ids"
      using a(4) d(2) by simp
  next
    fix g assume "g \<in> set added"
    then have "g \<in> set ?new" using a(2) by blast
    then show "sequence g = default_sequence" "structure_ann g = default_structure"
      using defaults by simp_all
  qed
  have empties: "uniprot default_sequence = []" "seq_len (representative default_sequence) = 0"
    "pdbs (representative default_sequence) = []" "homology default_structure = []"
    "pdb default_structure = []" "structure_id (struct_rep default_structure) = NoStructureId"
    by (simp_all add: default_sequence_def default_structure_def empty_seq_record_def)
  show ?thesis
    unfolding set_genes
    using d len defaults add empties fresh_sequence_unmapped fresh_structure_skipped
    by (intro conjI) blast+
qed

theorem new_genes_distinct_with_defaults_witness:
  "distinct (map gene_id (set_genes remdups (GeneIds [''b0001'', ''b0002'', ''b0001''])))
   \<and> set (map gene_id (set_genes remdups (GeneIds [''b0001'', ''b0002'', ''b0001''])))
       = {''b0001'', ''b0002''}
   \<and> length (set_genes remdups (GeneIds [''b0001'', ''b0002'', ''b0001''])) = 2
   \<and> add_genes_by_id remdups [''b0001'', ''b0002'', ''b0001''] [kegg_only_gene]
       = [kegg_only_gene,
          \<lparr>gene_id = ''b0001'', sequence = default_sequence, structure_ann = default_structure\<rparr>]"
proof -
  have h1: "distinct (remdups [''b0001'', ''b0002'', ''b0001''])
            \<and> set (remdups [''b0001'', ''b0002'', ''b0001'']) = set [''b0001'', ''b0002'', ''b0001'']"
    by (simp only: distinct_remdups set_remdups simp_thms)
  have h2: "distinct (map gene_id [kegg_only_gene])" by simp
  have s: "set [''b0001'', ''b0002'', ''b0001''] = {''b0001'', ''b0002''}" by auto
  have c: "card (set [''b0001'', ''b0002'', ''b0001'']) = 2" unfolding s by simp
  have ev: "add_genes_by_id remdups [''b0001'', ''b0002'', ''b0001''] [kegg_only_gene]
       = [kegg_only_gene,
          \<lparr>gene_id = ''b0001'', sequence = default_sequence, structure_ann = default_structure\<rparr>]"
    by (simp add: add_genes_by_id_def dictlist_union_def kegg_only_gene_def
        new_gene_by_id_defaults)
  show ?thesis
    using new_genes_distinct_with_defaults
        [of remdups "[''b0001'', ''b0002'', ''b0001'']" "[kegg_only_gene]", OF h1 h2] c s ev
    by simp
qed

end
